theory Spec2Isabelle
  imports Main "HOL-Library.AList" "HOL-Library.Word"
begin

unbundle bit_operations_syntax

section \<open>Data model\<close>

text \<open>
  The server (\<^verbatim>\<open>server.js\<close>) keeps one JSON file, \<^verbatim>\<open>files.json\<close>, holding an
  object that maps a file id to a record, and one directory of uploaded files.
  A record is the object literal built by the upload handler; after a round trip through
  JSON its \<^verbatim>\<open>passwordHash\<close> is a string or \<^verbatim>\<open>null\<close> (\<open>None\<close>) and its
  two timestamps are integers (milliseconds since the epoch).
\<close>

record file_record =
  id_rec :: string
  filename :: string
  originalName :: string
  path :: string
  passwordHash :: "string option"
  uploadedAt :: int
  expiresAt :: int

text \<open>
  The store is a JavaScript object used as a dictionary. Its own properties are kept in
  insertion order (\<^verbatim>\<open>Object.entries\<close>, \<^verbatim>\<open>Object.keys\<close>), so it is an
  association list; \<^verbatim>\<open>DB[id] = r\<close> is \<open>AList.update\<close> and \<^verbatim>\<open>delete DB[id]\<close>
  is \<open>AList.delete\<close>.
\<close>

type_synonym db = "(string \<times> file_record) list"

text \<open>
  Reading \<^verbatim>\<open>DB[key]\<close> is not a dictionary lookup: a key that is not an own property
  is looked up on \<^verbatim>\<open>Object.prototype\<close>, the prototype of every object that
  \<^verbatim>\<open>JSON.parse\<close> returns. The members of \<^verbatim>\<open>Object.prototype\<close> are functions (and,
  for \<^verbatim>\<open>__proto__\<close>, the prototype object itself): truthy values that have none of
  the properties of a record.
\<close>

definition object_prototype_keys :: "string list" where
  "object_prototype_keys =
     [''constructor'', ''__proto__'', ''hasOwnProperty'', ''isPrototypeOf'',
      ''propertyIsEnumerable'', ''toLocaleString'', ''toString'', ''valueOf'',
      ''__defineGetter__'', ''__defineSetter__'', ''__lookupGetter__'', ''__lookupSetter__'']"

datatype jsobj = Rec file_record | Proto

text \<open>\<^verbatim>\<open>DB[key]\<close>; \<open>None\<close> is \<^verbatim>\<open>undefined\<close>.\<close>

definition get_prop :: "db \<Rightarrow> string \<Rightarrow> jsobj option" where
  "get_prop DB key =
     (case map_of DB key of
        Some r \<Rightarrow> Some (Rec r)
      | None \<Rightarrow> if key \<in> set object_prototype_keys then Some Proto else None)"

text \<open>
  The property reads \<^verbatim>\<open>f.id\<close>, \<^verbatim>\<open>f.originalName\<close>, \<^verbatim>\<open>f.path\<close>,
  \<^verbatim>\<open>f.expiresAt\<close>, \<^verbatim>\<open>f.passwordHash\<close>; \<open>None\<close> is \<^verbatim>\<open>undefined\<close>
  (for \<^verbatim>\<open>passwordHash\<close> also \<^verbatim>\<open>null\<close>: the code only tests its truthiness before
  it compares it).
\<close>

fun get_id :: "jsobj \<Rightarrow> string option" where
  "get_id (Rec r) = Some (id_rec r)"
| "get_id Proto = None"

fun get_originalName :: "jsobj \<Rightarrow> string option" where
  "get_originalName (Rec r) = Some (originalName r)"
| "get_originalName Proto = None"

fun get_path :: "jsobj \<Rightarrow> string option" where
  "get_path (Rec r) = Some (path r)"
| "get_path Proto = None"

fun get_expiresAt :: "jsobj \<Rightarrow> int option" where
  "get_expiresAt (Rec r) = Some (expiresAt r)"
| "get_expiresAt Proto = None"

fun get_passwordHash :: "jsobj \<Rightarrow> string option" where
  "get_passwordHash (Rec r) = passwordHash r"
| "get_passwordHash Proto = None"

text \<open>Truthiness of a value that is a string, \<^verbatim>\<open>null\<close> or \<^verbatim>\<open>undefined\<close>.\<close>

definition truthy :: "string option \<Rightarrow> bool" where
  "truthy v = (case v of None \<Rightarrow> False | Some s \<Rightarrow> s \<noteq> [])"

text \<open>
  \<^verbatim>\<open>Date.now() > f.expiresAt\<close>: a comparison with \<^verbatim>\<open>undefined\<close> is false.
\<close>

definition past :: "int \<Rightarrow> int option \<Rightarrow> bool" where
  "past now e = (case e of None \<Rightarrow> False | Some t \<Rightarrow> now > t)"

section \<open>The world outside the process\<close>

text \<open>
  The text of \<^verbatim>\<open>files.json\<close> is described by what \<^verbatim>\<open>JSON.parse\<close> makes of it:
  the empty string, a text on which it throws (a truncated or damaged file), or the
  serialisation of a store (\<^verbatim>\<open>JSON.stringify\<close> writes the latter, and
  \<^verbatim>\<open>JSON.parse\<close> reads it back). The server itself only ever writes a store, first
  of all \<^verbatim>\<open>{}\<close>; a text that parses to something else than an object of records
  is not considered. Writing \<^verbatim>\<open>files.json\<close> is taken to succeed.
\<close>

datatype content = Empty | Malformed | Serialized db

datatype error = ENOENT | EPERM | SyntaxError | TypeError

datatype log_line = Log string | Err string

record world =
  db_file :: "content option"
  files :: "string \<rightharpoonup> string"
  locked :: "string set"
  console :: "log_line list"
  db_writes :: nat

text \<open>
  \<open>db_file\<close> is \<^verbatim>\<open>files.json\<close> (\<open>None\<close>: it cannot be read), \<open>files\<close> the upload
  directory (path to bytes), \<open>locked\<close> the paths on which \<^verbatim>\<open>fs.unlinkSync\<close> throws,
  \<open>console\<close> what was printed, \<open>db_writes\<close> the number of times \<^verbatim>\<open>files.json\<close>
  was written.
\<close>

definition readFileSync :: "world \<Rightarrow> error + content" where
  "readFileSync w = (case db_file w of None \<Rightarrow> Inl ENOENT | Some c \<Rightarrow> Inr c)"

definition JSON_parse :: "content \<Rightarrow> error + db" where
  "JSON_parse c = (case c of Serialized d \<Rightarrow> Inr d | _ \<Rightarrow> Inl SyntaxError)"

definition JSON_stringify :: "db \<Rightarrow> content" where
  "JSON_stringify d = Serialized d"

definition existsSync :: "world \<Rightarrow> string \<Rightarrow> bool" where
  "existsSync w p = (files w p \<noteq> None)"

definition unlinkSync :: "world \<Rightarrow> string \<Rightarrow> error + world" where
  "unlinkSync w p =
     (if p \<in> locked w then Inl EPERM
      else if files w p = None then Inl ENOENT
      else Inr (w\<lparr>files := (files w)(p := None)\<rparr>))"

definition console_log :: "string \<Rightarrow> world \<Rightarrow> world" where
  "console_log s w = w\<lparr>console := console w @ [Log s]\<rparr>"

definition console_error :: "string \<Rightarrow> world \<Rightarrow> world" where
  "console_error s w = w\<lparr>console := console w @ [Err s]\<rparr>"

section \<open>The record store\<close>

text \<open>
  \<^verbatim>\<open>JSON.parse(fs.readFileSync(DB_FILE, 'utf8') || '{}')\<close>, the body of the
  \<^verbatim>\<open>try\<close> block of \<^verbatim>\<open>loadDB\<close>.
\<close>

definition loadDB_try :: "world \<Rightarrow> error + db" where
  "loadDB_try w =
     (case readFileSync w of
        Inl e \<Rightarrow> Inl e
      | Inr c \<Rightarrow> JSON_parse (if c = Empty then JSON_stringify [] else c))"

definition loadDB :: "world \<Rightarrow> db \<times> world" where
  "loadDB w =
     (case loadDB_try w of
        Inr d \<Rightarrow> (d, w)
      | Inl e \<Rightarrow> ([], console_error ''Failed to read DB'' w))"

definition saveDB :: "db \<Rightarrow> world \<Rightarrow> world" where
  "saveDB obj w = w\<lparr>db_file := Some (JSON_stringify obj), db_writes := Suc (db_writes w)\<rparr>"

section \<open>Helpers\<close>

text \<open>
  What the framework does when \<^verbatim>\<open>res.download\<close> is asked to send a file: it streams
  bytes under some status (the whole file under 200, a slice under 206 when the request
  asks for a range, ...) and calls back without an error; or it calls back with an error
  before anything has been sent (the file is missing, a component of its path starts with
  a dot, ...); or it calls back with an error when the status and a part of the bytes
  have already gone out.
\<close>

datatype transfer =
    Sent nat string
  | Refused
  | Broken nat string

text \<open>
  The functions of Node, of the framework and of the \<^verbatim>\<open>qrcode\<close> package that the
  server calls: the hexadecimal SHA-256 digest of a string, \<^verbatim>\<open>path.basename\<close>,
  \<^verbatim>\<open>QRCode.toDataURL\<close> (\<open>None\<close>: the promise is rejected), and the transfer of a
  file, which is determined by the files on disk, the path and the headers of the
  request.
\<close>

record lib =
  sha256_hex :: "string \<Rightarrow> string"
  basename :: "string \<Rightarrow> string"
  toDataURL :: "string \<Rightarrow> string option"
  send_file :: "(string \<rightharpoonup> string) \<Rightarrow> string \<Rightarrow> (string \<times> string) list \<Rightarrow> transfer"

definition hex_digit :: "nat \<Rightarrow> char" where
  "hex_digit n = ''0123456789abcdef'' ! (n mod 16)"

text \<open>
  \<^verbatim>\<open>crypto.randomBytes(6).toString('hex')\<close>: the six random bytes are a 48-bit word,
  printed as twelve hexadecimal digits, the first byte first.
\<close>

definition genId :: "48 word \<Rightarrow> string" where
  "genId rnd = map (\<lambda>i. hex_digit (unat (drop_bit (4 * i) rnd AND 15))) (rev [0..<12])"

text \<open>
  \<^verbatim>\<open>hashPwd(p)\<close>; the argument \<open>None\<close> is \<^verbatim>\<open>null\<close> or \<^verbatim>\<open>undefined\<close>, the result
  \<open>None\<close> is \<^verbatim>\<open>null\<close>.
\<close>

definition hashPwd :: "lib \<Rightarrow> string option \<Rightarrow> string option" where
  "hashPwd L p =
     (case p of
        None \<Rightarrow> None
      | Some s \<Rightarrow> if s = [] then None else Some (sha256_hex L s))"

section \<open>Requests and responses\<close>

datatype jsval = JBool bool | JNum int | JStr string

datatype body =
    Text string
  | Json "(string \<times> jsval) list"
  | Attachment string string
  | ErrorPage

record response =
  status :: nat
  body :: body

text \<open>
  \<^verbatim>\<open>res.json\<close> serialises with \<^verbatim>\<open>JSON.stringify\<close>, which leaves out a property
  whose value is \<^verbatim>\<open>undefined\<close> (\<open>None\<close>).
\<close>

definition res_json :: "nat \<Rightarrow> (string \<times> jsval option) list \<Rightarrow> response" where
  "res_json st props =
     \<lparr>status = st,
      body = Json (concat (map (\<lambda>(k, v). case v of None \<Rightarrow> [] | Some x \<Rightarrow> [(k, x)]) props))\<rparr>"

definition res_send :: "nat \<Rightarrow> string \<Rightarrow> response" where
  "res_send st s = \<lparr>status = st, body = Text s\<rparr>"

section \<open>Metadata and health\<close>

text \<open>\<^verbatim>\<open>app.get('/meta/:id')\<close>.\<close>

definition meta_handler :: "string \<Rightarrow> world \<Rightarrow> response \<times> world" where
  "meta_handler ident w =
     (let (DB, w1) = loadDB w in
      case get_prop DB ident of
        None \<Rightarrow> (res_json 404 [(''error'', Some (JStr ''Not found or expired''))], w1)
      | Some f \<Rightarrow>
          (res_json 200
             [(''id'', map_option JStr (get_id f)),
              (''originalName'', map_option JStr (get_originalName f)),
              (''expiresAt'', map_option JNum (get_expiresAt f)),
              (''passwordProtected'', Some (JBool (truthy (get_passwordHash f))))],
           w1))"

text \<open>\<^verbatim>\<open>app.get('/health')\<close>.\<close>

definition health_handler :: "world \<Rightarrow> response \<times> world" where
  "health_handler w =
     (let (DB, w1) = loadDB w in
      (res_json 200 [(''ok'', Some (JBool True)), (''stored'', Some (JNum (int (length DB))))], w1))"

section \<open>Download\<close>

text \<open>
  \<^verbatim>\<open>try { if (fs.existsSync(f.path)) fs.unlinkSync(f.path); } catch (e) {}\<close>;
  \<^verbatim>\<open>fs.existsSync(undefined)\<close> is false.
\<close>

definition try_unlink :: "string option \<Rightarrow> world \<Rightarrow> world" where
  "try_unlink p w =
     (case p of
        None \<Rightarrow> w
      | Some q \<Rightarrow>
          if existsSync w q
          then (case unlinkSync w q of Inl e \<Rightarrow> w | Inr w' \<Rightarrow> w')
          else w)"

text \<open>\<^verbatim>\<open>path.basename(p)\<close> throws a \<^verbatim>\<open>TypeError\<close> when \<^verbatim>\<open>p\<close> is not a string.\<close>

definition path_basename :: "lib \<Rightarrow> string option \<Rightarrow> error + string" where
  "path_basename L p = (case p of None \<Rightarrow> Inl TypeError | Some q \<Rightarrow> Inr (basename L q))"

text \<open>\<^verbatim>\<open>f.originalName || path.basename(f.path)\<close>.\<close>

definition send_name :: "lib \<Rightarrow> jsobj \<Rightarrow> error + string" where
  "send_name L f =
     (case get_originalName f of
        Some n \<Rightarrow> if n \<noteq> [] then Inr n else path_basename L (get_path f)
      | None \<Rightarrow> path_basename L (get_path f))"

text \<open>
  \<^verbatim>\<open>res.download(f.path, sendName, callback)\<close> with the server's callback. What the
  framework sends goes out as an attachment named \<open>sendName\<close>. On an error the callback
  prints it and, when nothing has been sent yet (\<^verbatim>\<open>!res.headersSent\<close>), answers 500;
  without an error it prints the download.
\<close>

definition res_download ::
  "lib \<Rightarrow> (string \<times> string) list \<Rightarrow> string \<Rightarrow> string \<Rightarrow> string \<Rightarrow> world \<Rightarrow>
     response \<times> world" where
  "res_download L hdrs ident p sendName w =
     (case send_file L (files w) p hdrs of
        Sent st bytes \<Rightarrow>
          (\<lparr>status = st, body = Attachment sendName bytes\<rparr>,
           console_log (''Downloaded id='' @ ident @ '' file='' @ sendName) w)
      | Refused \<Rightarrow> (res_send 500 ''Download failed'', console_error ''Download error'' w)
      | Broken st bytes \<Rightarrow>
          (\<lparr>status = st, body = Attachment sendName bytes\<rparr>,
           console_error ''Download error'' w))"

text \<open>
  \<^verbatim>\<open>app.post('/download/:id')\<close>. \<open>now\<close> is the value of the handler's one call of
  \<^verbatim>\<open>Date.now()\<close>, \<open>password\<close> is the text field \<^verbatim>\<open>req.body.password\<close>
  (\<open>None\<close>: there is none), so that \<^verbatim>\<open>(req.body && req.body.password) || ''\<close>
  is the field or the empty string, and \<open>hdrs\<close> are the headers of the request. An
  exception that escapes the handler is answered by the framework with status 500.
\<close>

definition download_handler ::
  "lib \<Rightarrow> int \<Rightarrow> string \<Rightarrow> string option \<Rightarrow> (string \<times> string) list \<Rightarrow> world \<Rightarrow>
     response \<times> world" where
  "download_handler L now ident password hdrs w =
     (let (DB, w1) = loadDB w in
      case get_prop DB ident of
        None \<Rightarrow> (res_send 404 ''Invalid or expired link'', w1)
      | Some f \<Rightarrow>
          if past now (get_expiresAt f)
          then (res_send 410 ''Link expired'',
                saveDB (AList.delete ident DB) (try_unlink (get_path f) w1))
          else if truthy (get_passwordHash f) \<and>
                  hashPwd L (Some (case password of None \<Rightarrow> [] | Some s \<Rightarrow> s)) \<noteq>
                    get_passwordHash f
          then (res_send 401 ''Invalid password'', w1)
          else (case send_name L f of
                  Inl e \<Rightarrow> (\<lparr>status = 500, body = ErrorPage\<rparr>, w1)
                | Inr sendName \<Rightarrow>
                    (case get_path f of
                       None \<Rightarrow> (\<lparr>status = 500, body = ErrorPage\<rparr>, w1)
                     | Some p \<Rightarrow> res_download L hdrs ident p sendName w1)))"

section \<open>Upload\<close>

text \<open>
  \<^verbatim>\<open>req.file\<close>, as the upload middleware \<^verbatim>\<open>upload.single('file')\<close> leaves it: the
  name the client gave, the name \<^verbatim>\<open>Date.now()-random.ext\<close> that the middleware chose,
  and the path of the stored file in the upload directory.
\<close>

record multer_file =
  file_originalname :: string
  file_filename :: string
  file_path :: string

record upload_request =
  req_file :: "multer_file option"
  req_password :: "string option"
  req_protocol :: string
  req_host :: string

text \<open>
  The middleware runs before the handler. It skips a file part whose filename is empty:
  \<^verbatim>\<open>req.file\<close> is then \<^verbatim>\<open>undefined\<close> and nothing is written. Otherwise it writes
  the bytes of the uploaded file to \<^verbatim>\<open>req.file.path\<close>. (The size limit of its
  configuration is not modelled.)
\<close>

definition single_file :: "upload_request \<Rightarrow> upload_request" where
  "single_file req =
     (case req_file req of
        None \<Rightarrow> req
      | Some upl \<Rightarrow> if file_originalname upl = [] then req\<lparr>req_file := None\<rparr> else req)"

definition disk_storage :: "upload_request \<Rightarrow> string \<Rightarrow> world \<Rightarrow> world" where
  "disk_storage req bytes w =
     (case req_file req of
        None \<Rightarrow> w
      | Some upl \<Rightarrow> w\<lparr>files := (files w)(file_path upl \<mapsto> bytes)\<rparr>)"

text \<open>
  \<^verbatim>\<open>app.post('/upload')\<close>. The handler calls \<^verbatim>\<open>Date.now()\<close> twice: \<open>now1\<close> is
  the value of the first call (for \<^verbatim>\<open>expiresAt\<close>), \<open>now2\<close> the value of the second
  (for \<^verbatim>\<open>uploadedAt\<close>); \<open>rnd\<close> is the six random bytes drawn by \<^verbatim>\<open>genId\<close>.
\<close>

definition upload_handler ::
  "lib \<Rightarrow> 48 word \<Rightarrow> int \<Rightarrow> int \<Rightarrow> upload_request \<Rightarrow> world \<Rightarrow> response \<times> world" where
  "upload_handler L rnd now1 now2 req w =
     (case req_file req of
        None \<Rightarrow> (res_json 400 [(''error'', Some (JStr ''No file uploaded''))], w)
      | Some file \<Rightarrow>
          (let (DB, w1) = loadDB w;
               ident = genId rnd;
               expires = now1 + 10 * 60 * 1000;
               password = (if truthy (req_password req) then req_password req else None);
               r = \<lparr>id_rec = ident,
                    filename = file_filename file,
                    originalName = file_originalname file,
                    path = file_path file,
                    passwordHash = (if truthy password then hashPwd L password else None),
                    uploadedAt = now2,
                    expiresAt = expires\<rparr>;
               w2 = saveDB (AList.update ident r DB) w1;
               fileUrl = req_protocol req @ ''://'' @ req_host req @ ''/download.html?id='' @ ident
           in case toDataURL L fileUrl of
                None \<Rightarrow>
                  (res_json 500 [(''error'', Some (JStr ''Server error during upload''))],
                   console_error ''Upload error:'' w2)
              | Some qrData \<Rightarrow>
                  (res_json 200
                     [(''message'', Some (JStr ''uploaded'')),
                      (''id'', Some (JStr ident)),
                      (''fileUrl'', Some (JStr fileUrl)),
                      (''qrData'', Some (JStr qrData)),
                      (''expiresAt'', Some (JNum expires))],
                   console_log (''Uploaded '' @ file_originalname file @ '' -> id='' @ ident) w2)))"

section \<open>The cleanup job\<close>

text \<open>
  The body of the \<^verbatim>\<open>for\<close> loop over \<^verbatim>\<open>Object.entries(DB)\<close>, a snapshot of the
  entries taken before the loop. \<^verbatim>\<open>Date.now()\<close> is called once for every entry:
  \<open>now k\<close> is the value read for the entry at position \<open>k\<close>. The loop state is the
  store as it is being edited, the flag \<^verbatim>\<open>changed\<close> and the world.
\<close>

fun sweep_loop ::
  "(nat \<Rightarrow> int) \<Rightarrow> nat \<Rightarrow> (string \<times> file_record) list \<Rightarrow> db \<times> bool \<times> world \<Rightarrow>
     db \<times> bool \<times> world" where
  "sweep_loop now k [] s = s"
| "sweep_loop now k ((ident, f) # es) (DB, changed, w) =
     (if now k > expiresAt f
      then sweep_loop now (Suc k) es
             (AList.delete ident DB, True,
              console_log (''Auto-deleted expired file id='' @ ident)
                (try_unlink (Some (path f)) w))
      else sweep_loop now (Suc k) es (DB, changed, w))"

text \<open>One run of the callback given to \<^verbatim>\<open>setInterval\<close>.\<close>

definition sweep :: "(nat \<Rightarrow> int) \<Rightarrow> world \<Rightarrow> world" where
  "sweep now w =
     (let (DB, w1) = loadDB w;
          (DB', changed, w2) = sweep_loop now 0 DB (DB, False, w1)
      in if changed then saveDB DB' w2 else w2)"

text \<open>
  The entries that the loop keeps when every key occurs once: those for which the clock
  value read at their position is not past their \<open>expiresAt\<close>.
\<close>

definition kept_entries :: "(nat \<Rightarrow> int) \<Rightarrow> nat \<Rightarrow> db \<Rightarrow> db" where
  "kept_entries now k es =
     map snd (filter (\<lambda>(j, (ident, f)). \<not> now j > expiresAt f) (enumerate k es))"

section \<open>The server as a whole\<close>

text \<open>
  What a handler sees when it calls \<^verbatim>\<open>loadDB\<close> in a given world.
\<close>

definition store :: "world \<Rightarrow> db" where
  "store w = fst (loadDB w)"

text \<open>
  The routes and the timer of the server. Every handler runs to its last change of the
  store and of the disk without being interrupted, so the server is the sequence of the
  requests it handles: \<open>after\<close> is the world one of them leaves, \<open>run\<close> the world a
  sequence leaves, and \<open>issues\<close> the id under which a request stores a record.
\<close>

datatype request =
    Upload "48 word" int int upload_request string
  | Meta string
  | Download int string "string option" "(string \<times> string) list"
  | Health
  | Sweep "nat \<Rightarrow> int"

fun after :: "lib \<Rightarrow> request \<Rightarrow> world \<Rightarrow> world" where
  "after L (Upload rnd now1 now2 req bytes) w =
     snd (upload_handler L rnd now1 now2 (single_file req)
            (disk_storage (single_file req) bytes w))"
| "after L (Meta ident) w = snd (meta_handler ident w)"
| "after L (Download now ident password hdrs) w =
     snd (download_handler L now ident password hdrs w)"
| "after L Health w = snd (health_handler w)"
| "after L (Sweep now) w = sweep now w"

fun issues :: "request \<Rightarrow> string option" where
  "issues (Upload rnd now1 now2 req bytes) =
     (if req_file (single_file req) = None then None else Some (genId rnd))"
| "issues r = None"

definition run :: "lib \<Rightarrow> request list \<Rightarrow> world \<Rightarrow> world" where
  "run L rs w = fold (after L) rs w"

text \<open>
  The count that \<^verbatim>\<open>GET /health\<close> is specified to report: the records of the store
  whose expiry has not passed at the time \<open>now\<close>.
\<close>

definition live_count :: "int \<Rightarrow> db \<Rightarrow> nat" where
  "live_count now DB = length (filter (\<lambda>(ident, f). \<not> now > expiresAt f) DB)"

section \<open>Concrete inputs\<close>

text \<open>
  An instance of the library functions, to run the model on concrete requests:
  \<^verbatim>\<open>path.basename\<close> on POSIX paths, stand-ins for the digest and the QR image that
  keep their argument readable, and a transfer that sends the whole file under 200 when
  it is on disk and no component of its path starts with a dot (what the framework does
  for a request without range or conditional headers), and is refused otherwise. Every
  general theorem below holds for any instance.
\<close>

fun dotfile :: "string \<Rightarrow> bool" where
  "dotfile (a # b # cs) = ((a = CHR ''/'' \<and> b = CHR ''.'') \<or> dotfile (b # cs))"
| "dotfile cs = False"

definition posix_basename :: "string \<Rightarrow> string" where
  "posix_basename p =
     rev (takeWhile (\<lambda>c. c \<noteq> CHR ''/'') (dropWhile (\<lambda>c. c = CHR ''/'') (rev p)))"

definition example_lib :: lib where
  "example_lib =
     \<lparr>sha256_hex = (\<lambda>s. ''sha256:'' @ s),
      basename = posix_basename,
      toDataURL = (\<lambda>url. Some (''data:image/png;base64,'' @ url)),
      send_file = (\<lambda>disk p hdrs.
        case disk p of
          None \<Rightarrow> Refused
        | Some bytes \<Rightarrow> if dotfile p then Refused else Sent 200 bytes)\<rparr>"

text \<open>
  The world right after start-up in an empty directory (the server has written
  \<^verbatim>\<open>{}\<close> to \<^verbatim>\<open>files.json\<close>), a record as the upload handler builds it, and the
  world in which exactly one record is stored and its file is on disk.
\<close>

definition initial_world :: world where
  "initial_world =
     \<lparr>db_file = Some (Serialized []), files = Map.empty, locked = {}, console = [],
      db_writes = 0\<rparr>"

definition example_record :: file_record where
  "example_record =
     \<lparr>id_rec = ''a1b2c3d4e5f6'',
      filename = ''1700000000000-42.txt'',
      originalName = ''notes.txt'',
      path = ''/app/uploads/1700000000000-42.txt'',
      passwordHash = None,
      uploadedAt = 1700000000000,
      expiresAt = 1700000600000\<rparr>"

definition holding :: "file_record \<Rightarrow> string \<Rightarrow> world" where
  "holding r bytes =
     initial_world\<lparr>db_file := Some (Serialized [(id_rec r, r)]), files := [path r \<mapsto> bytes]\<rparr>"

text \<open>
  The same record protected by the password \<open>abc\<close>, and an upload request with an
  empty password field.
\<close>

definition protected_record :: file_record where
  "protected_record = example_record\<lparr>passwordHash := hashPwd example_lib (Some ''abc'')\<rparr>"

definition example_request :: upload_request where
  "example_request =
     \<lparr>req_file = Some \<lparr>file_originalname = ''notes.txt'',
                         file_filename = ''1700000000000-42.txt'',
                         file_path = ''/app/uploads/1700000000000-42.txt''\<rparr>,
      req_password = Some [],
      req_protocol = ''http'',
      req_host = ''localhost:3000''\<rparr>"

section \<open>Properties of the store and of the helpers\<close>

lemma loadDB_Serialized: "db_file w = Some (Serialized d) \<Longrightarrow> loadDB w = (d, w)"
  by (simp add: loadDB_def loadDB_try_def readFileSync_def JSON_parse_def)

lemma loadDB_saveDB: "loadDB (saveDB d w) = (d, saveDB d w)"
  by (simp add: loadDB_Serialized saveDB_def JSON_stringify_def)

lemma store_saveDB: "store (saveDB d w) = d"
  by (simp add: store_def loadDB_saveDB)

lemma loadDB_cases:
  "loadDB w = (store w, w) \<or> (store w = [] \<and> loadDB w = ([], console_error ''Failed to read DB'' w))"
  by (auto simp: store_def loadDB_def split: sum.splits)

lemma loadDB_nonempty: "store w \<noteq> [] \<Longrightarrow> loadDB w = (store w, w)"
  using loadDB_cases [of w] by auto

lemma loadDB_present: "map_of (store w) k = Some f \<Longrightarrow> loadDB w = (store w, w)"
  by (rule loadDB_nonempty) auto

lemma store_db_file: "db_file w' = db_file w \<Longrightarrow> store w' = store w"
  by (simp add: store_def loadDB_def loadDB_try_def readFileSync_def split: sum.splits)

lemma single_file_Some:
  "req_file (single_file req) = Some upl \<Longrightarrow> file_originalname upl \<noteq> []"
  by (auto simp: single_file_def split: option.splits if_splits)

lemma store_disk_storage [simp]: "store (disk_storage req bytes w) = store w"
  by (rule store_db_file) (simp add: disk_storage_def split: option.splits)

lemma store_console_log [simp]: "store (console_log s w) = store w"
  by (rule store_db_file) (simp add: console_log_def)

lemma store_console_error [simp]: "store (console_error s w) = store w"
  by (rule store_db_file) (simp add: console_error_def)

lemma snd_loadDB_store [simp]: "store (snd (loadDB w)) = store w"
  using loadDB_cases [of w] by auto

lemma store_holding: "store (holding r bytes) = [(id_rec r, r)]"
  by (simp add: store_def holding_def loadDB_Serialized)

lemma store_initial_world: "store initial_world = []"
  by (simp add: store_def initial_world_def loadDB_Serialized)

lemma genId_length: "length (genId rnd) = 12"
  by (simp add: genId_def)

lemma genId_not_prototype: "genId rnd \<notin> set object_prototype_keys"
proof
  assume "genId rnd \<in> set object_prototype_keys"
  then have "length (genId rnd) \<in> length ` set object_prototype_keys" by (rule imageI)
  then show False by (simp add: genId_length object_prototype_keys_def)
qed

lemma genId_example: "genId 0xa1b2c3d4e5f6 = ''a1b2c3d4e5f6''"
  by (simp add: genId_def hex_digit_def upt_rec drop_bit_eq_div)

lemma get_prop_own: "map_of DB k = Some f \<Longrightarrow> get_prop DB k = Some (Rec f)"
  by (simp add: get_prop_def)

lemma get_prop_absent:
  "map_of DB k = None \<Longrightarrow> k \<notin> set object_prototype_keys \<Longrightarrow> get_prop DB k = None"
  by (simp add: get_prop_def)

lemma get_prop_inherited:
  "map_of DB k = None \<Longrightarrow> k \<in> set object_prototype_keys \<Longrightarrow> get_prop DB k = Some Proto"
  by (simp add: get_prop_def)

lemma truthy_None: "\<not> truthy None"
  by (simp add: truthy_def)

lemma hashPwd_provided:
  "hashPwd L (Some (case password of None \<Rightarrow> [] | Some s \<Rightarrow> s)) = hashPwd L password"
  by (cases password) (simp_all add: hashPwd_def)

lemma try_unlink_files:
  "files (try_unlink (Some q) w) = (if q \<in> locked w then files w else (files w)(q := None))"
  by (auto simp: try_unlink_def existsSync_def unlinkSync_def)

lemma try_unlink_frame [simp]:
  "db_file (try_unlink p w) = db_file w"
  "console (try_unlink p w) = console w"
  "db_writes (try_unlink p w) = db_writes w"
  "locked (try_unlink p w) = locked w"
  by (auto simp: try_unlink_def existsSync_def unlinkSync_def split: option.splits)

lemma console_log_frame [simp]:
  "db_file (console_log s w) = db_file w"
  "files (console_log s w) = files w"
  "db_writes (console_log s w) = db_writes w"
  "locked (console_log s w) = locked w"
  by (simp_all add: console_log_def)

lemma console_error_frame [simp]:
  "db_file (console_error s w) = db_file w"
  "files (console_error s w) = files w"
  "db_writes (console_error s w) = db_writes w"
  "locked (console_error s w) = locked w"
  by (simp_all add: console_error_def)

lemma saveDB_frame [simp]:
  "db_file (saveDB d w) = Some (JSON_stringify d)"
  "files (saveDB d w) = files w"
  "db_writes (saveDB d w) = Suc (db_writes w)"
  "locked (saveDB d w) = locked w"
  "console (saveDB d w) = console w"
  by (simp_all add: saveDB_def)

lemma length_filter_split:
  "length xs = length (filter (\<lambda>(k, f). \<not> P k f) xs) + length (filter (\<lambda>(k, f). P k f) xs)"
  by (induction xs) auto

section \<open>Properties of the handlers\<close>

lemma meta_handler_present:
  assumes "map_of (store w) ident = Some f"
  shows "meta_handler ident w =
           (\<lparr>status = 200,
             body = Json [(''id'', JStr (id_rec f)),
                          (''originalName'', JStr (originalName f)),
                          (''expiresAt'', JNum (expiresAt f)),
                          (''passwordProtected'', JBool (truthy (passwordHash f)))]\<rparr>,
            w)"
  by (simp add: meta_handler_def loadDB_present [OF assms] get_prop_own [OF assms] res_json_def)

lemma meta_handler_absent:
  assumes "map_of (store w) ident = None" and "ident \<notin> set object_prototype_keys"
  shows "fst (meta_handler ident w) =
           \<lparr>status = 404, body = Json [(''error'', JStr ''Not found or expired'')]\<rparr>"
  using assms loadDB_cases [of w]
  by (auto simp: meta_handler_def get_prop_absent res_json_def get_prop_def)

lemma meta_handler_world: "snd (meta_handler ident w) = snd (loadDB w)"
  by (simp add: meta_handler_def split: prod.splits option.splits)

lemma health_handler_world: "snd (health_handler w) = snd (loadDB w)"
  by (simp add: health_handler_def split: prod.splits)

lemma download_handler_absent:
  assumes "map_of (store w) ident = None" and "ident \<notin> set object_prototype_keys"
  shows "fst (download_handler L now ident password hdrs w) = res_send 404 ''Invalid or expired link''"
  using assms loadDB_cases [of w]
  by (auto simp: download_handler_def get_prop_absent get_prop_def)

lemma download_handler_expired:
  assumes "map_of (store w) ident = Some f" and "now > expiresAt f"
  shows "download_handler L now ident password hdrs w =
           (res_send 410 ''Link expired'',
            saveDB (AList.delete ident (store w)) (try_unlink (Some (path f)) w))"
  using assms
  by (simp add: download_handler_def loadDB_present [OF assms(1)] get_prop_own past_def)

lemma send_name_Rec:
  "send_name L (Rec f) = Inr (if originalName f \<noteq> [] then originalName f else basename L (path f))"
  by (simp add: send_name_def path_basename_def)

lemma download_handler_pass:
  assumes "map_of (store w) ident = Some f"
    and "\<not> now > expiresAt f"
    and "\<not> truthy (passwordHash f) \<or> hashPwd L password = passwordHash f"
  shows "download_handler L now ident password hdrs w =
           res_download L hdrs ident (path f)
             (if originalName f \<noteq> [] then originalName f else basename L (path f)) w"
  using assms
  by (auto simp: download_handler_def loadDB_present [OF assms(1)] get_prop_own past_def
      hashPwd_provided send_name_Rec)

lemma res_download_store [simp]:
  "store (snd (res_download L hdrs ident p sendName w)) = store w"
  by (simp add: res_download_def split: transfer.splits)

lemma download_handler_store:
  "store (snd (download_handler L now ident password hdrs w)) = store w \<or>
   store (snd (download_handler L now ident password hdrs w)) = AList.delete ident (store w)"
proof -
  obtain w1 where l: "loadDB w = (store w, w1)"
    by (cases "loadDB w") (simp add: store_def)
  then have w1: "store w1 = store w"
    using snd_loadDB_store [of w] by simp
  show ?thesis
    by (simp add: download_handler_def l w1 store_saveDB split: option.splits sum.splits)
qed

lemma upload_handler_store:
  "store (snd (upload_handler L rnd now1 now2 req w)) =
     (case req_file req of
        None \<Rightarrow> store w
      | Some file \<Rightarrow>
          AList.update (genId rnd)
            \<lparr>id_rec = genId rnd,
             filename = file_filename file,
             originalName = file_originalname file,
             path = file_path file,
             passwordHash = (if truthy (req_password req)
                             then hashPwd L (req_password req) else None),
             uploadedAt = now2,
             expiresAt = now1 + 600000\<rparr>
            (store w))"
proof (cases "req_file req")
  case None
  then show ?thesis by (simp add: upload_handler_def)
next
  case (Some upl)
  obtain w1 where l: "loadDB w = (store w, w1)"
    by (cases "loadDB w") (simp add: store_def)
  show ?thesis
    by (simp add: upload_handler_def Some l Let_def store_saveDB truthy_None split: option.splits)
qed

section \<open>Properties of the cleanup loop\<close>

lemma sweep_loop_frame:
  "sweep_loop now k es (DB, c, w) = (DB', c', w') \<Longrightarrow>
     db_file w' = db_file w \<and> db_writes w' = db_writes w \<and> locked w' = locked w"
  by (induction es arbitrary: k DB c w) (auto split: if_splits)

lemma sweep_loop_keys:
  "sweep_loop now k es (DB, c, w) = (DB', c', w') \<Longrightarrow> map_of DB ident = None \<Longrightarrow>
     map_of DB' ident = None"
proof (induction es arbitrary: k DB c w)
  case Nil
  then show ?case by simp
next
  case (Cons e es)
  obtain i f where e: "e = (i, f)" by (cases e)
  show ?case
  proof (cases "now k > expiresAt f")
    case True
    have "map_of (AList.delete i DB) ident = None"
      using Cons.prems(2) by (simp add: AList.delete_conv')
    with Cons.IH Cons.prems(1) True e show ?thesis by simp
  next
    case False
    with Cons.IH Cons.prems e show ?thesis by simp
  qed
qed

lemma sweep_loop_subset:
  "sweep_loop now k es (DB, c, w) = (DB', c', w') \<Longrightarrow> set DB' \<subseteq> set DB"
proof (induction es arbitrary: k DB c w)
  case Nil
  then show ?case by simp
next
  case (Cons e es)
  obtain i f where e: "e = (i, f)" by (cases e)
  show ?case
  proof (cases "now k > expiresAt f")
    case True
    with Cons.prems e have "set DB' \<subseteq> set (AList.delete i DB)"
      using Cons.IH by simp
    also have "\<dots> \<subseteq> set DB" by (auto simp: AList.delete_eq)
    finally show ?thesis .
  next
    case False
    with Cons.IH Cons.prems e show ?thesis by simp
  qed
qed

lemma sweep_loop_remaining:
  assumes "\<forall>k. t0 \<le> now k"
  shows "sweep_loop now k es (DB, c, w) = (DB', c', w') \<Longrightarrow>
     \<forall>e\<in>set DB. e \<in> set es \<or> t0 \<le> expiresAt (snd e) \<Longrightarrow>
     \<forall>e\<in>set DB'. t0 \<le> expiresAt (snd e)"
proof (induction es arbitrary: k DB c w)
  case Nil
  then show ?case by simp
next
  case (Cons e es)
  obtain i f where e: "e = (i, f)" by (cases e)
  show ?case
  proof (cases "now k > expiresAt f")
    case True
    have "\<forall>x\<in>set (AList.delete i DB). x \<in> set es \<or> t0 \<le> expiresAt (snd x)"
      using Cons.prems(2) e by (auto simp: AList.delete_eq)
    with Cons.IH Cons.prems(1) True e show ?thesis by simp
  next
    case False
    with assms have "t0 \<le> expiresAt f"
      by (metis le_less_linear order_trans)
    then have "\<forall>x\<in>set DB. x \<in> set es \<or> t0 \<le> expiresAt (snd x)"
      using Cons.prems(2) e by auto
    with Cons.IH Cons.prems(1) False e show ?thesis by simp
  qed
qed

lemma sweep_loop_flag_mono:
  "sweep_loop now k es (DB, c, w) = (DB', c', w') \<Longrightarrow> c \<Longrightarrow> c'"
  by (induction es arbitrary: k DB c w) (auto split: if_splits)

lemma sweep_loop_unchanged:
  "sweep_loop now k es (DB, c, w) = (DB', c', w') \<Longrightarrow> \<not> c' \<Longrightarrow> DB' = DB \<and> w' = w"
proof (induction es arbitrary: k DB c w)
  case Nil
  then show ?case by simp
next
  case (Cons e es)
  obtain i f where e: "e = (i, f)" by (cases e)
  show ?case
  proof (cases "now k > expiresAt f")
    case True
    with Cons.prems(1) e have "c'" by (auto dest: sweep_loop_flag_mono)
    with Cons.prems(2) show ?thesis by simp
  next
    case False
    with Cons.IH Cons.prems e show ?thesis by simp
  qed
qed

lemma sweep_loop_removed:
  "sweep_loop now k es (DB, c, w) = (DB', c', w') \<Longrightarrow> (ident, f) \<in> set es \<Longrightarrow>
     \<forall>j. now j > expiresAt f \<Longrightarrow> map_of DB' ident = None \<and> c'"
proof (induction es arbitrary: k DB c w)
  case Nil
  then show ?case by simp
next
  case (Cons e es)
  obtain i g where e: "e = (i, g)" by (cases e)
  show ?case
  proof (cases "e = (ident, f)")
    case True
    with e Cons.prems(3) have exp: "now k > expiresAt g" by simp
    with Cons.prems(1) e have rest:
      "sweep_loop now (Suc k) es (AList.delete i DB, True,
         console_log (''Auto-deleted expired file id='' @ i) (try_unlink (Some (path g)) w)) =
       (DB', c', w')"
      by simp
    have "map_of (AList.delete i DB) ident = None"
      using True e by (simp add: AList.delete_conv')
    with rest have "map_of DB' ident = None" by (rule sweep_loop_keys)
    moreover from rest have "c'" by (rule sweep_loop_flag_mono) simp
    ultimately show ?thesis by simp
  next
    case False
    with Cons.prems(2) have "(ident, f) \<in> set es" by simp
    with Cons.IH Cons.prems(1,3) e show ?thesis
      by (cases "now k > expiresAt g") auto
  qed
qed

lemma sweep_loop_changed:
  "sweep_loop now k es (DB, c, w) = (DB', c', w') \<Longrightarrow> \<not> c \<Longrightarrow> c' \<Longrightarrow>
     \<exists>e\<in>set es. map_of DB' (fst e) = None"
proof (induction es arbitrary: k DB c w)
  case Nil
  then show ?case by simp
next
  case (Cons e es)
  obtain i g where e: "e = (i, g)" by (cases e)
  show ?case
  proof (cases "now k > expiresAt g")
    case True
    with Cons.prems(1) e have rest:
      "sweep_loop now (Suc k) es (AList.delete i DB, True,
         console_log (''Auto-deleted expired file id='' @ i) (try_unlink (Some (path g)) w)) =
       (DB', c', w')"
      by simp
    have "map_of (AList.delete i DB) i = None"
      by (simp add: AList.delete_conv')
    with rest have "map_of DB' i = None" by (rule sweep_loop_keys)
    with e show ?thesis by simp
  next
    case False
    with Cons.prems e have "sweep_loop now (Suc k) es (DB, c, w) = (DB', c', w')" by simp
    from Cons.IH [OF this Cons.prems(2,3)] show ?thesis by auto
  qed
qed

lemma sweep_loop_files:
  "sweep_loop now k es (DB, c, w) = (DB', c', w') \<Longrightarrow> files w p = None \<Longrightarrow> files w' p = None"
proof (induction es arbitrary: k DB c w)
  case Nil
  then show ?case by simp
next
  case (Cons e es)
  obtain i g where e: "e = (i, g)" by (cases e)
  show ?case
  proof (cases "now k > expiresAt g")
    case True
    have "files (console_log (''Auto-deleted expired file id='' @ i)
            (try_unlink (Some (path g)) w)) p = None"
      using Cons.prems(2) by (simp add: try_unlink_files)
    with Cons.IH Cons.prems(1) True e show ?thesis by simp
  next
    case False
    with Cons.IH Cons.prems e show ?thesis by simp
  qed
qed

lemma sweep_loop_unlinked:
  "sweep_loop now k es (DB, c, w) = (DB', c', w') \<Longrightarrow> (ident, f) \<in> set es \<Longrightarrow>
     \<forall>j. now j > expiresAt f \<Longrightarrow> path f \<notin> locked w \<Longrightarrow> files w' (path f) = None"
proof (induction es arbitrary: k DB c w)
  case Nil
  then show ?case by simp
next
  case (Cons e es)
  obtain i g where e: "e = (i, g)" by (cases e)
  show ?case
  proof (cases "e = (ident, f)")
    case True
    with e Cons.prems(3) have exp: "now k > expiresAt g" by simp
    with Cons.prems(1) e have rest:
      "sweep_loop now (Suc k) es (AList.delete i DB, True,
         console_log (''Auto-deleted expired file id='' @ i) (try_unlink (Some (path g)) w)) =
       (DB', c', w')"
      by simp
    have "files (console_log (''Auto-deleted expired file id='' @ i)
            (try_unlink (Some (path g)) w)) (path f) = None"
      using True e Cons.prems(4) by (simp add: try_unlink_files)
    with rest show ?thesis by (rule sweep_loop_files)
  next
    case False
    with Cons.prems(2) have "(ident, f) \<in> set es" by simp
    with Cons.IH Cons.prems(1,3,4) e show ?thesis
      by (cases "now k > expiresAt g") auto
  qed
qed

lemma sweep_cases:
  obtains DB' changed w2 where
    "sweep_loop now 0 (store w) (store w, False, snd (loadDB w)) = (DB', changed, w2)"
    and "sweep now w = (if changed then saveDB DB' w2 else w2)"
    and "store (sweep now w) = DB'"
proof -
  obtain DB' changed w2 where
    loop: "sweep_loop now 0 (store w) (store w, False, snd (loadDB w)) = (DB', changed, w2)"
    by (cases "sweep_loop now 0 (store w) (store w, False, snd (loadDB w))") auto
  then have res: "sweep now w = (if changed then saveDB DB' w2 else w2)"
    by (cases "loadDB w") (simp add: sweep_def store_def)
  have "store (sweep now w) = DB'"
  proof (cases changed)
    case True
    with res show ?thesis by (simp add: store_saveDB)
  next
    case False
    with sweep_loop_unchanged [OF loop] have "DB' = store w" "w2 = snd (loadDB w)" by simp_all
    with res False show ?thesis by simp
  qed
  with loop res show thesis by (rule that)
qed

lemma absent_after:
  assumes "map_of (store w) k = None" and "issues r \<noteq> Some k"
  shows "map_of (store (after L r w)) k = None"
proof (cases r)
  case (Upload rnd now1 now2 req bytes)
  with assms show ?thesis
    by (auto simp: upload_handler_store AList.update_conv' split: option.splits if_splits)
next
  case (Meta ident)
  with assms(1) show ?thesis by (simp add: meta_handler_world)
next
  case (Download now ident password hdrs)
  with assms(1) download_handler_store [of L now ident password hdrs w] show ?thesis
    by (auto simp: AList.delete_conv')
next
  case Health
  with assms(1) show ?thesis by (simp add: health_handler_world)
next
  case (Sweep now)
  obtain DB' changed w2 where
    loop: "sweep_loop now 0 (store w) (store w, False, snd (loadDB w)) = (DB', changed, w2)"
    and st: "store (sweep now w) = DB'"
    by (rule sweep_cases)
  from sweep_loop_keys [OF loop assms(1)] st Sweep show ?thesis by simp
qed

lemma absent_run:
  "map_of (store w) k = None \<Longrightarrow> \<forall>r\<in>set rs. issues r \<noteq> Some k \<Longrightarrow>
     map_of (store (run L rs w)) k = None"
  unfolding run_def
  by (induction rs arbitrary: w) (simp_all add: absent_after)

text \<open>
  The model at work: a file uploaded without a password right after start-up is
  downloaded half a second later under its original name.
\<close>

lemma upload_then_download_example:
  "fst (download_handler example_lib 1700000000500 ''a1b2c3d4e5f6'' None []
          (after example_lib
             (Upload 0xa1b2c3d4e5f6 1700000000000 1700000000001 example_request ''hello'')
             initial_world)) =
     \<lparr>status = 200, body = Attachment ''notes.txt'' ''hello''\<rparr>"
proof -
  define w where "w = after example_lib
      (Upload 0xa1b2c3d4e5f6 1700000000000 1700000000001 example_request ''hello'')
      initial_world"
  define r where "r = example_record\<lparr>uploadedAt := 1700000000001\<rparr>"
  have sf: "single_file example_request = example_request"
    by (simp add: single_file_def example_request_def)
  have st: "map_of (store w) ''a1b2c3d4e5f6'' = Some r"
    unfolding w_def after.simps sf
    by (simp add: r_def upload_handler_store example_request_def genId_example
        store_initial_world truthy_def example_record_def)
  have fs: "files w (path r) = Some ''hello''"
    unfolding w_def after.simps sf
    by (simp add: r_def upload_handler_def disk_storage_def example_request_def
        initial_world_def loadDB_Serialized Let_def example_lib_def example_record_def)
  have tr: "send_file example_lib (files w) (path r) [] = Sent 200 ''hello''"
    by (simp add: example_lib_def fs) (simp add: r_def example_record_def)
  have "download_handler example_lib 1700000000500 ''a1b2c3d4e5f6'' None [] w =
      res_download example_lib [] ''a1b2c3d4e5f6'' (path r)
        (if originalName r \<noteq> [] then originalName r else basename example_lib (path r)) w"
    by (rule download_handler_pass [OF st]) (simp_all add: r_def example_record_def truthy_def)
  then show ?thesis
    unfolding w_def [symmetric]
    by (simp add: res_download_def tr) (simp add: r_def example_record_def)
qed

text \<open>
  Every key of a store that the server has built since start-up is an id drawn by
  \<open>genId\<close>: twelve characters, so never the name of a member of
  \<^verbatim>\<open>Object.prototype\<close>.
\<close>

lemma keys_after:
  assumes "\<And>k f. map_of (store w) k = Some f \<Longrightarrow> length k = 12"
    and "map_of (store (after L r w)) k = Some f"
  shows "length k = 12"
proof (cases "map_of (store w) k")
  case (Some g)
  then show ?thesis by (rule assms(1))
next
  case None
  show ?thesis
  proof (cases "issues r = Some k")
    case True
    then show ?thesis
      by (cases r) (auto simp: genId_length split: if_splits)
  next
    case False
    with None have "map_of (store (after L r w)) k = None" by (rule absent_after)
    with assms(2) show ?thesis by simp
  qed
qed

lemma keys_run:
  "(\<And>k f. map_of (store w) k = Some f \<Longrightarrow> length k = 12) \<Longrightarrow>
     map_of (store (run L rs w)) k = Some f \<Longrightarrow> length k = 12"
  unfolding run_def
proof (induction rs arbitrary: w)
  case Nil
  then show ?case by simp
next
  case (Cons r rs)
  have "length k' = 12" if "map_of (store (after L r w)) k' = Some f'" for k' f'
    using Cons.prems(1) that by (rule keys_after)
  with Cons.IH [of "after L r w"] Cons.prems(2) show ?case by simp
qed

lemma reachable_key_not_prototype:
  assumes "map_of (store (run L rs initial_world)) ident = Some f"
  shows "ident \<notin> set object_prototype_keys"
proof
  assume "ident \<in> set object_prototype_keys"
  then have "length ident \<in> length ` set object_prototype_keys" by (rule imageI)
  then have "length ident \<noteq> 12" by (auto simp: object_prototype_keys_def)
  moreover have "length ident = 12"
    using _ assms by (rule keys_run) (simp add: store_initial_world)
  ultimately show False by simp
qed

lemma set_update_subset: "set (AList.update k v al) \<subseteq> insert (k, v) (set al)"
  by (induction al) auto

lemma set_delete_subset: "set (AList.delete k al) \<subseteq> set al"
  by (auto simp: AList.delete_eq)

text \<open>
  The middleware never hands over a file with an empty name, so the original filename of
  a record of such a store is never empty.
\<close>

lemma names_after:
  assumes "\<And>k f. (k, f) \<in> set (store w) \<Longrightarrow> originalName f \<noteq> []"
    and "(k, f) \<in> set (store (after L r w))"
  shows "originalName f \<noteq> []"
proof (cases r)
  case (Upload rnd now1 now2 req bytes)
  show ?thesis
  proof (cases "req_file (single_file req)")
    case None
    with Upload assms show ?thesis by (simp add: upload_handler_store)
  next
    case (Some upl)
    define r' where "r' = \<lparr>id_rec = genId rnd, filename = file_filename upl,
        originalName = file_originalname upl, path = file_path upl,
        passwordHash = (if truthy (req_password (single_file req))
                        then hashPwd L (req_password (single_file req)) else None),
        uploadedAt = now2, expiresAt = now1 + 600000\<rparr>"
    from Upload Some assms(2) have "(k, f) \<in> set (AList.update (genId rnd) r' (store w))"
      by (simp add: upload_handler_store r'_def)
    with set_update_subset have "(k, f) = (genId rnd, r') \<or> (k, f) \<in> set (store w)"
      by fastforce
    then show ?thesis
    proof
      assume "(k, f) = (genId rnd, r')"
      then have "originalName f = file_originalname upl" by (simp add: r'_def)
      with single_file_Some [OF Some] show ?thesis by simp
    next
      assume "(k, f) \<in> set (store w)"
      then show ?thesis by (rule assms(1))
    qed
  qed
next
  case (Meta ident)
  with assms show ?thesis by (simp add: meta_handler_world)
next
  case (Download now ident password hdrs)
  with assms(2) download_handler_store [of L now ident password hdrs w]
    set_delete_subset [of ident "store w"]
  have "(k, f) \<in> set (store w)" by auto
  then show ?thesis by (rule assms(1))
next
  case Health
  with assms show ?thesis by (simp add: health_handler_world)
next
  case (Sweep now)
  obtain DB' changed w2 where
    loop: "sweep_loop now 0 (store w) (store w, False, snd (loadDB w)) = (DB', changed, w2)"
    and st: "store (sweep now w) = DB'"
    by (rule sweep_cases)
  from sweep_loop_subset [OF loop] st Sweep assms(2) have "(k, f) \<in> set (store w)" by auto
  then show ?thesis by (rule assms(1))
qed

lemma names_run:
  "(\<And>k f. (k, f) \<in> set (store w) \<Longrightarrow> originalName f \<noteq> []) \<Longrightarrow>
     (k, f) \<in> set (store (run L rs w)) \<Longrightarrow> originalName f \<noteq> []"
  unfolding run_def
proof (induction rs arbitrary: w)
  case Nil
  then show ?case by simp
next
  case (Cons r rs)
  have "originalName f' \<noteq> []" if "(k', f') \<in> set (store (after L r w))" for k' f'
    using Cons.prems(1) that by (rule names_after)
  with Cons.IH [of "after L r w"] Cons.prems(2) show ?case by simp
qed

lemma reachable_originalName:
  assumes "map_of (store (run L rs initial_world)) ident = Some f"
  shows "originalName f \<noteq> []"
proof -
  from assms have "(ident, f) \<in> set (store (run L rs initial_world))"
    by (rule map_of_SomeD)
  with names_run [of initial_world ident f L rs] show ?thesis
    by (simp add: store_initial_world)
qed

text \<open>
  A JavaScript object has every key once, and so has every store that the server has
  built since start-up.
\<close>

lemma sweep_loop_distinct:
  "sweep_loop now k es (DB, c, w) = (DB', c', w') \<Longrightarrow> distinct (map fst DB) \<Longrightarrow>
     distinct (map fst DB')"
proof (induction es arbitrary: k DB c w)
  case Nil
  then show ?case by simp
next
  case (Cons e es)
  obtain i f where e: "e = (i, f)" by (cases e)
  show ?case
  proof (cases "now k > expiresAt f")
    case True
    have "distinct (map fst (AList.delete i DB))"
      using Cons.prems(2) by (rule AList.distinct_delete)
    with Cons.IH Cons.prems(1) True e show ?thesis by simp
  next
    case False
    with Cons.IH Cons.prems e show ?thesis by simp
  qed
qed

lemma distinct_after:
  assumes "distinct (map fst (store w))"
  shows "distinct (map fst (store (after L r w)))"
proof (cases r)
  case (Upload rnd now1 now2 req bytes)
  with assms show ?thesis
    by (simp add: upload_handler_store AList.distinct_update split: option.splits)
next
  case (Meta ident)
  with assms show ?thesis by (simp add: meta_handler_world)
next
  case (Download now ident password hdrs)
  with assms download_handler_store [of L now ident password hdrs w]
    AList.distinct_delete [of "store w" ident]
  show ?thesis by auto
next
  case Health
  with assms show ?thesis by (simp add: health_handler_world)
next
  case (Sweep now)
  obtain DB' changed w2 where
    loop: "sweep_loop now 0 (store w) (store w, False, snd (loadDB w)) = (DB', changed, w2)"
    and st: "store (sweep now w) = DB'"
    by (rule sweep_cases)
  from sweep_loop_distinct [OF loop assms] st Sweep show ?thesis by simp
qed

lemma reachable_distinct: "distinct (map fst (store (run L rs initial_world)))"
proof -
  have "distinct (map fst (store w)) \<Longrightarrow> distinct (map fst (store (fold (after L) rs w)))"
    for w
    by (induction rs arbitrary: w) (simp_all add: distinct_after)
  then show ?thesis by (simp add: run_def store_initial_world)
qed

text \<open>On such a store the cleanup loop keeps exactly \<open>kept_entries\<close>.\<close>

lemma delete_middle:
  assumes "distinct (map fst (kept @ (i, f) # es))"
  shows "AList.delete i (kept @ (i, f) # es) = kept @ es"
proof -
  from assms have "i \<notin> fst ` set kept" "i \<notin> fst ` set es" by auto
  then have "AList.delete i kept = kept" "AList.delete i es = es" by simp_all
  then show ?thesis by (simp add: AList.delete_eq)
qed

lemma sweep_loop_exact:
  "sweep_loop now k es (kept @ es, c, w) = (DB', c', w') \<Longrightarrow>
     distinct (map fst (kept @ es)) \<Longrightarrow> DB' = kept @ kept_entries now k es"
proof (induction es arbitrary: k kept c w)
  case Nil
  then show ?case by (simp add: kept_entries_def)
next
  case (Cons e es)
  obtain i f where e: "e = (i, f)" by (cases e)
  show ?case
  proof (cases "now k > expiresAt f")
    case True
    from Cons.prems(2) e have d: "AList.delete i (kept @ (i, f) # es) = kept @ es"
      by (simp add: delete_middle)
    from Cons.prems(2) have d': "distinct (map fst (kept @ es))" by simp
    from Cons.prems(1) True e d have
      "sweep_loop now (Suc k) es (kept @ es, True,
         console_log (''Auto-deleted expired file id='' @ i) (try_unlink (Some (path f)) w)) =
       (DB', c', w')"
      by simp
    from Cons.IH [OF this d'] True e show ?thesis
      by (simp add: kept_entries_def)
  next
    case False
    with Cons.prems(1) e have
      "sweep_loop now (Suc k) es ((kept @ [(i, f)]) @ es, c, w) = (DB', c', w')"
      by simp
    moreover from Cons.prems(2) e have "distinct (map fst ((kept @ [(i, f)]) @ es))" by simp
    ultimately have "DB' = (kept @ [(i, f)]) @ kept_entries now (Suc k) es"
      by (rule Cons.IH)
    with False e show ?thesis by (simp add: kept_entries_def)
  qed
qed

lemma kept_entries_retains:
  "(ident, f) \<in> set es \<Longrightarrow> \<forall>j. \<not> now j > expiresAt f \<Longrightarrow>
     (ident, f) \<in> set (kept_entries now k es)"
  by (induction es arbitrary: k) (auto simp: kept_entries_def)

lemma sweep_exact:
  assumes "distinct (map fst (store w))"
  shows "store (sweep now w) = kept_entries now 0 (store w)"
proof -
  obtain DB' changed w2 where
    loop: "sweep_loop now 0 (store w) (store w, False, snd (loadDB w)) = (DB', changed, w2)"
    and st: "store (sweep now w) = DB'"
    by (rule sweep_cases)
  from loop have "sweep_loop now 0 (store w) ([] @ store w, False, snd (loadDB w)) =
      (DB', changed, w2)"
    by simp
  from sweep_loop_exact [OF this] assms st show ?thesis by simp
qed

lemma sweep_retains:
  assumes "distinct (map fst (store w))"
    and "(ident, f) \<in> set (store w)"
    and "\<forall>j. \<not> now j > expiresAt f"
  shows "(ident, f) \<in> set (store (sweep now w)) \<and> map_of (store (sweep now w)) ident = Some f"
proof -
  have m: "(ident, f) \<in> set (store (sweep now w))"
    using assms(2,3) by (simp add: sweep_exact [OF assms(1)] kept_entries_retains)
  obtain DB' changed w2 where
    loop: "sweep_loop now 0 (store w) (store w, False, snd (loadDB w)) = (DB', changed, w2)"
    and st: "store (sweep now w) = DB'"
    by (rule sweep_cases)
  from sweep_loop_distinct [OF loop assms(1)] st
  have "distinct (map fst (store (sweep now w)))" by simp
  with m show ?thesis by simp
qed

lemma genId_other: "genId 0x000000000001 = ''000000000001''"
  by (simp add: genId_def hex_digit_def upt_rec drop_bit_eq_div)

lemma single_file_example: "single_file example_request = example_request"
  by (simp add: single_file_def example_request_def)

section \<open>The claims\<close>

subsection \<open>Download of an expired record\<close>

text \<open>
  C1, as stated: after the 410 the record is gone and every future request for the id is
  answered 404. \<open>genId\<close> draws six random bytes and the upload handler stores the new
  record under them without looking whether the id is or was in use: when a later upload
  draws the bytes of the expired id again, the next metadata request for that id is
  answered 200 with the new record.
\<close>

theorem download_expired_reupload_counterexample:
  "fst (download_handler example_lib 1700000600001 ''a1b2c3d4e5f6'' None []
          (holding example_record ''hello'')) = res_send 410 ''Link expired'' \<and>
   fst (meta_handler ''a1b2c3d4e5f6''
          (after example_lib
             (Upload 0xa1b2c3d4e5f6 1700000700000 1700000700000 example_request ''again'')
             (snd (download_handler example_lib 1700000600001 ''a1b2c3d4e5f6'' None []
                     (holding example_record ''hello''))))) =
     \<lparr>status = 200,
      body = Json [(''id'', JStr ''a1b2c3d4e5f6''),
                   (''originalName'', JStr ''notes.txt''),
                   (''expiresAt'', JNum 1700001300000),
                   (''passwordProtected'', JBool False)]\<rparr>"
proof -
  define w' where "w' = snd (download_handler example_lib 1700000600001 ''a1b2c3d4e5f6'' None []
      (holding example_record ''hello''))"
  have h1: "map_of (store (holding example_record ''hello'')) ''a1b2c3d4e5f6'' =
      Some example_record"
    by (simp add: store_holding) (simp add: example_record_def)
  have h2: "expiresAt example_record < 1700000600001"
    by (simp add: example_record_def)
  note first = download_handler_expired [OF h1 h2, of example_lib None "[]"]
  have st: "store w' = []"
    by (simp add: w'_def first store_saveDB store_holding) (simp add: example_record_def)
  define r where "r = \<lparr>id_rec = ''a1b2c3d4e5f6'', filename = ''1700000000000-42.txt'',
      originalName = ''notes.txt'', path = ''/app/uploads/1700000000000-42.txt'',
      passwordHash = None, uploadedAt = 1700000700000, expiresAt = 1700001300000\<rparr>"
  have present: "map_of (store (after example_lib
      (Upload 0xa1b2c3d4e5f6 1700000700000 1700000700000 example_request ''again'') w'))
      ''a1b2c3d4e5f6'' = Some r"
    unfolding after.simps single_file_example
    by (simp add: upload_handler_store st example_request_def genId_example truthy_def r_def)
  have m: "fst (meta_handler ''a1b2c3d4e5f6'' (after example_lib
      (Upload 0xa1b2c3d4e5f6 1700000700000 1700000700000 example_request ''again'') w')) =
     \<lparr>status = 200,
      body = Json [(''id'', JStr ''a1b2c3d4e5f6''),
                   (''originalName'', JStr ''notes.txt''),
                   (''expiresAt'', JNum 1700001300000),
                   (''passwordProtected'', JBool False)]\<rparr>"
    unfolding meta_handler_present [OF present] by (simp add: r_def truthy_def)
  have e: "fst (download_handler example_lib 1700000600001 ''a1b2c3d4e5f6'' None []
          (holding example_record ''hello'')) = res_send 410 ''Link expired''"
    by (simp add: first)
  from e m show ?thesis
    unfolding w'_def by (rule conjI)
qed

text \<open>
  C1, amended: a download request for an id that is in the store and whose \<open>expiresAt\<close>
  has passed is answered 410 ``Link expired''. The handler deletes the file when it can
  (the file is gone unless \<^verbatim>\<open>unlinkSync\<close> throws on its path), removes the record
  from the store and writes the store once. From then on the record is gone: after any
  further requests among which no upload stores a record under the same id, a download and
  a metadata request for it are both answered 404. The id is assumed not to be the name of
  a member of \<^verbatim>\<open>Object.prototype\<close>: no id that \<open>genId\<close> draws is one (lemma
  \<open>genId_not_prototype\<close>), and so no key of a store that the server has built since
  start-up (lemma \<open>reachable_key_not_prototype\<close>).
\<close>

theorem download_expired:
  assumes "map_of (store w) ident = Some f"
    and "now > expiresAt f"
    and "ident \<notin> set object_prototype_keys"
    and "\<forall>r\<in>set rs. issues r \<noteq> Some ident"
  shows "let w' = snd (download_handler L now ident password hdrs w);
             w'' = run L rs w'
         in fst (download_handler L now ident password hdrs w) = res_send 410 ''Link expired'' \<and>
            files w' = (if path f \<in> locked w then files w else (files w)(path f := None)) \<and>
            store w' = AList.delete ident (store w) \<and>
            db_file w' = Some (JSON_stringify (store w')) \<and>
            db_writes w' = Suc (db_writes w) \<and>
            map_of (store w'') ident = None \<and>
            fst (download_handler L now' ident password' hdrs' w'') =
              res_send 404 ''Invalid or expired link'' \<and>
            fst (meta_handler ident w'') =
              \<lparr>status = 404, body = Json [(''error'', JStr ''Not found or expired'')]\<rparr>"
proof -
  define w' where "w' = saveDB (AList.delete ident (store w)) (try_unlink (Some (path f)) w)"
  have first: "download_handler L now ident password hdrs w = (res_send 410 ''Link expired'', w')"
    unfolding w'_def using assms(1,2) by (rule download_handler_expired)
  have st: "store w' = AList.delete ident (store w)"
    by (simp add: w'_def store_saveDB)
  have "map_of (store w') ident = None"
    by (simp add: st AList.delete_conv')
  then have gone: "map_of (store (run L rs w')) ident = None"
    using assms(4) by (rule absent_run)
  have fs: "files w' = (if path f \<in> locked w then files w else (files w)(path f := None))"
    by (simp add: w'_def try_unlink_files)
  have persisted: "db_file w' = Some (JSON_stringify (store w'))"
    by (simp add: st) (simp add: w'_def)
  have wr: "db_writes w' = Suc (db_writes w)"
    by (simp add: w'_def)
  note later = download_handler_absent [OF gone assms(3)] meta_handler_absent [OF gone assms(3)]
  show ?thesis
    by (simp add: first st [symmetric] gone fs persisted wr later)
qed

theorem download_expired_witness:
  "map_of (store (holding example_record ''hello'')) ''a1b2c3d4e5f6'' = Some example_record \<and>
   expiresAt example_record < 1700000600001 \<and>
   ''a1b2c3d4e5f6'' \<notin> set object_prototype_keys \<and>
   issues (Upload 0x000000000001 1700000700000 1700000700000 example_request ''other'') \<noteq>
     Some ''a1b2c3d4e5f6'' \<and>
   issues (Meta ''a1b2c3d4e5f6'') \<noteq> Some ''a1b2c3d4e5f6'' \<and>
   issues (Sweep (\<lambda>k. 1700000800000)) \<noteq> Some ''a1b2c3d4e5f6'' \<and>
   fst (download_handler example_lib 1700000600001 ''a1b2c3d4e5f6'' None []
          (holding example_record ''hello'')) = res_send 410 ''Link expired'' \<and>
   fst (meta_handler ''a1b2c3d4e5f6''
          (run example_lib
             [Upload 0x000000000001 1700000700000 1700000700000 example_request ''other'',
              Meta ''a1b2c3d4e5f6'', Sweep (\<lambda>k. 1700000800000)]
             (snd (download_handler example_lib 1700000600001 ''a1b2c3d4e5f6'' None []
                     (holding example_record ''hello''))))) =
     \<lparr>status = 404, body = Json [(''error'', JStr ''Not found or expired'')]\<rparr> \<and>
   fst (download_handler example_lib 1700000900000 ''a1b2c3d4e5f6'' None []
          (run example_lib
             [Upload 0x000000000001 1700000700000 1700000700000 example_request ''other'',
              Meta ''a1b2c3d4e5f6'', Sweep (\<lambda>k. 1700000800000)]
             (snd (download_handler example_lib 1700000600001 ''a1b2c3d4e5f6'' None []
                     (holding example_record ''hello''))))) =
     res_send 404 ''Invalid or expired link''"
proof -
  have h1: "map_of (store (holding example_record ''hello'')) ''a1b2c3d4e5f6'' =
      Some example_record"
    by (simp add: store_holding) (simp add: example_record_def)
  have h2: "expiresAt example_record < 1700000600001"
    by (simp add: example_record_def)
  have h3: "''a1b2c3d4e5f6'' \<notin> set object_prototype_keys"
    by (simp add: object_prototype_keys_def)
  have i1: "issues (Upload 0x000000000001 1700000700000 1700000700000 example_request
      ''other'') \<noteq> Some ''a1b2c3d4e5f6''"
    by (simp add: genId_other)
  have i2: "issues (Meta ''a1b2c3d4e5f6'') \<noteq> Some ''a1b2c3d4e5f6''" by simp
  have i3: "issues (Sweep (\<lambda>k. 1700000800000)) \<noteq> Some ''a1b2c3d4e5f6''" by simp
  have h4: "\<forall>r\<in>set [Upload 0x000000000001 1700000700000 1700000700000 example_request
      ''other'', Meta ''a1b2c3d4e5f6'', Sweep (\<lambda>k. 1700000800000)].
      issues r \<noteq> Some ''a1b2c3d4e5f6''"
    using i1 i2 i3 by simp
  from download_expired [OF h1 h2 h3 h4, where L = example_lib and password = None
      and hdrs = "[]" and now' = 1700000900000 and password' = None and hdrs' = "[]"]
  have "fst (download_handler example_lib 1700000600001 ''a1b2c3d4e5f6'' None []
          (holding example_record ''hello'')) = res_send 410 ''Link expired'' \<and>
   fst (meta_handler ''a1b2c3d4e5f6''
          (run example_lib
             [Upload 0x000000000001 1700000700000 1700000700000 example_request ''other'',
              Meta ''a1b2c3d4e5f6'', Sweep (\<lambda>k. 1700000800000)]
             (snd (download_handler example_lib 1700000600001 ''a1b2c3d4e5f6'' None []
                     (holding example_record ''hello''))))) =
     \<lparr>status = 404, body = Json [(''error'', JStr ''Not found or expired'')]\<rparr> \<and>
   fst (download_handler example_lib 1700000900000 ''a1b2c3d4e5f6'' None []
          (run example_lib
             [Upload 0x000000000001 1700000700000 1700000700000 example_request ''other'',
              Meta ''a1b2c3d4e5f6'', Sweep (\<lambda>k. 1700000800000)]
             (snd (download_handler example_lib 1700000600001 ''a1b2c3d4e5f6'' None []
                     (holding example_record ''hello''))))) =
     res_send 404 ''Invalid or expired link''"
    unfolding Let_def by blast
  with h1 h2 h3 i1 i2 i3 show ?thesis by blast
qed

subsection \<open>Download with a wrong or missing password\<close>

text \<open>
  C2. A download request for a record that has not expired and has a password digest is
  answered 401 ``Invalid password'' when the request carries no password, or a password
  whose hash differs from the stored digest. The world is left exactly as it was: nothing
  is deleted and nothing is written, so the request can be repeated.
\<close>

theorem download_wrong_password:
  assumes "map_of (store w) ident = Some f"
    and "\<not> now > expiresAt f"
    and "truthy (passwordHash f)"
    and "password = None \<or> hashPwd L password \<noteq> passwordHash f"
  shows "download_handler L now ident password hdrs w = (res_send 401 ''Invalid password'', w)"
proof -
  from assms(3,4) have "hashPwd L password \<noteq> passwordHash f"
    by (auto simp: hashPwd_def truthy_def)
  with assms(1,2,3) show ?thesis
    by (simp add: download_handler_def loadDB_present [OF assms(1)] get_prop_own past_def
        hashPwd_provided)
qed

theorem download_wrong_password_witness:
  "map_of (store (holding protected_record ''hello'')) ''a1b2c3d4e5f6'' = Some protected_record \<and>
   \<not> expiresAt protected_record < 1700000000500 \<and>
   truthy (passwordHash protected_record) \<and>
   hashPwd example_lib (Some ''abcd'') \<noteq> passwordHash protected_record \<and>
   download_handler example_lib 1700000000500 ''a1b2c3d4e5f6'' (Some ''abcd'') []
       (holding protected_record ''hello'') =
     (res_send 401 ''Invalid password'', holding protected_record ''hello'') \<and>
   download_handler example_lib 1700000000500 ''a1b2c3d4e5f6'' None []
       (holding protected_record ''hello'') =
     (res_send 401 ''Invalid password'', holding protected_record ''hello'')"
proof -
  have h1: "map_of (store (holding protected_record ''hello'')) ''a1b2c3d4e5f6'' =
      Some protected_record"
    by (simp add: store_holding) (simp add: protected_record_def example_record_def)
  have h2: "\<not> expiresAt protected_record < 1700000000500"
    by (simp add: protected_record_def example_record_def)
  have h3: "truthy (passwordHash protected_record)"
    by (simp add: protected_record_def example_record_def hashPwd_def example_lib_def truthy_def)
  have h4: "hashPwd example_lib (Some ''abcd'') \<noteq> passwordHash protected_record"
    by (simp add: protected_record_def example_record_def hashPwd_def example_lib_def)
  have h4a: "Some ''abcd'' = None \<or>
      hashPwd example_lib (Some ''abcd'') \<noteq> passwordHash protected_record"
    using h4 by simp
  have h4b: "(None :: string option) = None \<or>
      hashPwd example_lib None \<noteq> passwordHash protected_record"
    by simp
  from download_wrong_password [OF h1 h2 h3 h4a] download_wrong_password [OF h1 h2 h3 h4b]
  show ?thesis
    using h1 h2 h3 h4 by simp
qed

subsection \<open>The expiry of an uploaded record\<close>

text \<open>
  C3, as stated: the record that the upload handler stores has
  \<open>expiresAt = uploadedAt + 600000\<close>. The handler reads the clock twice, first for
  \<open>expiresAt\<close> and, after the password has been hashed, again for \<open>uploadedAt\<close>.
  When the clock moves from 1700000000000 to 1700000000001 between the two calls, the
  stored record expires one millisecond less than ten minutes after \<open>uploadedAt\<close>.
\<close>

theorem upload_clock_counterexample:
  "map_of (store (snd (upload_handler example_lib 0xa1b2c3d4e5f6 1700000000000 1700000000001
                         example_request initial_world))) ''a1b2c3d4e5f6'' =
     Some (example_record\<lparr>uploadedAt := 1700000000001\<rparr>) \<and>
   expiresAt (example_record\<lparr>uploadedAt := 1700000000001\<rparr>) \<noteq>
     uploadedAt (example_record\<lparr>uploadedAt := 1700000000001\<rparr>) + 600000"
  by (simp add: upload_handler_store example_request_def genId_example store_initial_world
      truthy_def example_record_def)

text \<open>
  C3, amended: every upload that carries a file stores a record under the new id whose
  \<open>expiresAt\<close> is the first clock value plus 600000 milliseconds and whose
  \<open>uploadedAt\<close> is the second clock value. So \<open>expiresAt = uploadedAt + 600000\<close>
  holds exactly when both calls return the same millisecond, and
  \<open>expiresAt \<le> uploadedAt + 600000\<close> whenever the clock has not gone backwards.
\<close>

theorem upload_record_times:
  assumes "req_file req = Some upl"
  shows "\<exists>r. map_of (store (snd (upload_handler L rnd now1 now2 req w))) (genId rnd) = Some r \<and>
             expiresAt r = now1 + 600000 \<and> uploadedAt r = now2 \<and>
             (expiresAt r = uploadedAt r + 600000 \<longleftrightarrow> now1 = now2) \<and>
             (now1 \<le> now2 \<longrightarrow> expiresAt r \<le> uploadedAt r + 600000)"
  by (simp add: upload_handler_store assms AList.update_conv')

theorem upload_record_times_witness:
  "req_file example_request \<noteq> None \<and>
   (\<exists>r. map_of (store (snd (upload_handler example_lib 0xa1b2c3d4e5f6 1700000000000
                               1700000000000 example_request initial_world)))
           (genId 0xa1b2c3d4e5f6) = Some r \<and>
        expiresAt r = 1700000600000 \<and> uploadedAt r = 1700000000000 \<and>
        expiresAt r = uploadedAt r + 600000)"
proof -
  have h: "req_file example_request =
      Some \<lparr>file_originalname = ''notes.txt'', file_filename = ''1700000000000-42.txt'',
            file_path = ''/app/uploads/1700000000000-42.txt''\<rparr>"
    by (simp add: example_request_def)
  from upload_record_times [OF h, of example_lib "0xa1b2c3d4e5f6" 1700000000000 1700000000000
      initial_world]
  show ?thesis using h by auto
qed

subsection \<open>A successful download\<close>

text \<open>
  C4. Let a record be in the store and not expired, let the password check pass (the
  record has no digest, or the hash of the supplied password equals it), and let the
  transfer of its file succeed. Then the bytes that the framework streams from the file go
  out as an attachment whose suggested name is the record's original filename. The store,
  \<^verbatim>\<open>files.json\<close> and the files are left unchanged (one line is printed) and the
  record is still there, so the same request, repeated at any time at which the record has
  not expired, succeeds again with the same bytes. The original filename of a record is
  never empty in a store that the server has built since start-up (lemma
  \<open>reachable_originalName\<close>).
\<close>

theorem download_success:
  assumes "map_of (store w) ident = Some f"
    and "\<not> now > expiresAt f"
    and "\<not> truthy (passwordHash f) \<or> hashPwd L password = passwordHash f"
    and "originalName f \<noteq> []"
    and "send_file L (files w) (path f) hdrs = Sent st bytes"
  shows "let res = fst (download_handler L now ident password hdrs w);
             w' = snd (download_handler L now ident password hdrs w)
         in res = \<lparr>status = st, body = Attachment (originalName f) bytes\<rparr> \<and>
            store w' = store w \<and> db_file w' = db_file w \<and> db_writes w' = db_writes w \<and>
            files w' = files w \<and> map_of (store w') ident = Some f \<and>
            (\<not> now_again > expiresAt f \<longrightarrow>
               fst (download_handler L now_again ident password hdrs w') = res)"
proof -
  define w' where
    "w' = console_log (''Downloaded id='' @ ident @ '' file='' @ originalName f) w"
  have first: "download_handler L now ident password hdrs w =
      (\<lparr>status = st, body = Attachment (originalName f) bytes\<rparr>, w')"
    using assms(4,5)
    by (simp add: download_handler_pass [OF assms(1-3)] res_download_def w'_def)
  have st: "store w' = store w" by (simp add: w'_def)
  from assms(1) st have present: "map_of (store w') ident = Some f" by simp
  have again: "fst (download_handler L now_again ident password hdrs w') =
      \<lparr>status = st, body = Attachment (originalName f) bytes\<rparr>"
    if "\<not> now_again > expiresAt f"
  proof -
    have "send_file L (files w') (path f) hdrs = Sent st bytes"
      using assms(5) by (simp add: w'_def)
    then show ?thesis
      using assms(4)
      by (simp add: download_handler_pass [OF present that assms(3)] res_download_def)
  qed
  show ?thesis
    using again present by (simp add: first st) (simp add: w'_def)
qed

theorem download_success_witness:
  "map_of (store (holding example_record ''hello'')) ''a1b2c3d4e5f6'' = Some example_record \<and>
   \<not> expiresAt example_record < 1700000000500 \<and>
   \<not> truthy (passwordHash example_record) \<and>
   originalName example_record \<noteq> [] \<and>
   send_file example_lib (files (holding example_record ''hello'')) (path example_record) [] =
     Sent 200 ''hello'' \<and>
   fst (download_handler example_lib 1700000000500 ''a1b2c3d4e5f6'' None []
          (holding example_record ''hello'')) =
     \<lparr>status = 200, body = Attachment ''notes.txt'' ''hello''\<rparr> \<and>
   \<not> expiresAt example_record < 1700000000600 \<and>
   fst (download_handler example_lib 1700000000600 ''a1b2c3d4e5f6'' None []
          (snd (download_handler example_lib 1700000000500 ''a1b2c3d4e5f6'' None []
                  (holding example_record ''hello'')))) =
     \<lparr>status = 200, body = Attachment ''notes.txt'' ''hello''\<rparr>"
proof -
  have h1: "map_of (store (holding example_record ''hello'')) ''a1b2c3d4e5f6'' =
      Some example_record"
    by (simp add: store_holding) (simp add: example_record_def)
  have h2: "\<not> expiresAt example_record < 1700000000500"
    by (simp add: example_record_def)
  have h3: "\<not> truthy (passwordHash example_record)"
    by (simp add: example_record_def truthy_def)
  have h3a: "\<not> truthy (passwordHash example_record) \<or>
      hashPwd example_lib None = passwordHash example_record"
    using h3 by simp
  have h4: "originalName example_record \<noteq> []"
    by (simp add: example_record_def)
  have h5: "send_file example_lib (files (holding example_record ''hello''))
      (path example_record) [] = Sent 200 ''hello''"
    by (simp add: example_lib_def holding_def) (simp add: example_record_def)
  have h6: "\<not> expiresAt example_record < 1700000000600"
    by (simp add: example_record_def)
  have n: "originalName example_record = ''notes.txt''"
    by (simp add: example_record_def)
  from download_success [OF h1 h2 h3a h4 h5, where now_again = 1700000000600]
  show ?thesis
    using h1 h2 h3 h4 h5 h6 by (simp add: Let_def n)
qed

subsection \<open>The cleanup job\<close>

text \<open>
  C5, as stated: every record that remains after a sweep has \<open>expiresAt\<close> greater than
  the time at which the sweep started. The job removes a record only when the clock is
  past its \<open>expiresAt\<close> (\<^verbatim>\<open>Date.now() > f.expiresAt\<close>): a sweep that runs in the very
  millisecond 1700000600000 in which the record expires keeps it, and its \<open>expiresAt\<close> is
  not greater than the start of the sweep.
\<close>

theorem sweep_boundary_counterexample:
  "map_of (store (sweep (\<lambda>k. 1700000600000) (holding example_record ''hello'')))
     ''a1b2c3d4e5f6'' = Some example_record \<and>
   \<not> expiresAt example_record > 1700000600000"
proof -
  have l: "loadDB (holding example_record ''hello'') =
      ([(''a1b2c3d4e5f6'', example_record)], holding example_record ''hello'')"
    by (rule loadDB_Serialized) (simp add: holding_def example_record_def)
  have e: "expiresAt example_record = 1700000600000"
    by (simp add: example_record_def)
  have "sweep (\<lambda>k. 1700000600000) (holding example_record ''hello'') =
      holding example_record ''hello''"
    by (simp add: sweep_def l e)
  then show ?thesis
    by (simp add: store_holding e) (simp add: example_record_def)
qed

text \<open>
  C5, amended: let every clock value read during a sweep be at least \<open>t0\<close>, the time at
  which the sweep starts. After the sweep every record that remains in the store has
  \<open>expiresAt \<ge> t0\<close>, and the records that remain are records that were there before.
  Every record with \<open>expiresAt < t0\<close> is removed, and its file is gone unless
  \<^verbatim>\<open>unlinkSync\<close> throws on its path. \<^verbatim>\<open>files.json\<close> is written at most once; when it
  is written, at least one record was removed and the file holds the remaining records;
  when it is not written, the store and the file are as before. The job removes a record
  only when the clock is past its \<open>expiresAt\<close>: in a store with every key once (as
  every store that the server has built is, lemma \<open>reachable_distinct\<close>) the records
  that remain are exactly those for which the clock value read at their turn is not
  greater than their \<open>expiresAt\<close>, in their order; so a record whose \<open>expiresAt\<close>
  no clock value of the sweep exceeds remains.
\<close>

theorem sweep_invariant:
  assumes "\<forall>k. t0 \<le> now k"
  shows "let w' = sweep now w in
           (\<forall>(ident, f)\<in>set (store w'). t0 \<le> expiresAt f) \<and>
           set (store w') \<subseteq> set (store w) \<and>
           (\<forall>(ident, f)\<in>set (store w). expiresAt f < t0 \<longrightarrow>
              map_of (store w') ident = None \<and>
              (path f \<notin> locked w \<longrightarrow> files w' (path f) = None)) \<and>
           (db_writes w' = db_writes w \<or> db_writes w' = Suc (db_writes w)) \<and>
           (db_writes w' = Suc (db_writes w) \<longrightarrow>
              (\<exists>(ident, f)\<in>set (store w). map_of (store w') ident = None) \<and>
              db_file w' = Some (JSON_stringify (store w'))) \<and>
           (db_writes w' = db_writes w \<longrightarrow> store w' = store w \<and> db_file w' = db_file w) \<and>
           (distinct (map fst (store w)) \<longrightarrow>
              store w' = kept_entries now 0 (store w) \<and>
              (\<forall>(ident, f)\<in>set (store w). (\<forall>k. \<not> now k > expiresAt f) \<longrightarrow>
                 (ident, f) \<in> set (store w') \<and> map_of (store w') ident = Some f))"
proof -
  obtain DB' changed w2 where
    loop: "sweep_loop now 0 (store w) (store w, False, snd (loadDB w)) = (DB', changed, w2)"
    and res: "sweep now w = (if changed then saveDB DB' w2 else w2)"
    and st: "store (sweep now w) = DB'"
    by (rule sweep_cases)
  have w1: "db_file (snd (loadDB w)) = db_file w" "db_writes (snd (loadDB w)) = db_writes w"
    "locked (snd (loadDB w)) = locked w" "files (snd (loadDB w)) = files w"
    using loadDB_cases [of w] by auto
  from sweep_loop_frame [OF loop] w1
  have fr: "db_file w2 = db_file w" "db_writes w2 = db_writes w" by simp_all
  have late: "now j > expiresAt f" if "expiresAt f < t0" for j and f :: file_record
    using that assms by (metis less_le_trans)
  have c1: "\<forall>(ident, f)\<in>set (store w'). t0 \<le> expiresAt f" if "w' = sweep now w" for w'
    using sweep_loop_remaining [OF assms loop] st that by auto
  have c2: "set (store (sweep now w)) \<subseteq> set (store w)"
    using sweep_loop_subset [OF loop] st by simp
  have c3: "map_of (store (sweep now w)) ident = None \<and>
            (path f \<notin> locked w \<longrightarrow> files (sweep now w) (path f) = None)"
    if "(ident, f) \<in> set (store w)" "expiresAt f < t0" for ident f
  proof -
    from that(2) have all: "\<forall>j. now j > expiresAt f" by (simp add: late)
    from sweep_loop_removed [OF loop that(1) all] st
    have "map_of (store (sweep now w)) ident = None" by simp
    moreover have "files (sweep now w) (path f) = None" if "path f \<notin> locked w"
    proof -
      from that w1 have "path f \<notin> locked (snd (loadDB w))" by simp
      from sweep_loop_unlinked [OF loop \<open>(ident, f) \<in> set (store w)\<close> all this]
      show ?thesis by (simp add: res)
    qed
    ultimately show ?thesis by simp
  qed
  have c4: "db_writes (sweep now w) = (if changed then Suc (db_writes w) else db_writes w)"
    by (simp add: res fr)
  have c5: "(\<exists>(ident, f)\<in>set (store w). map_of (store (sweep now w)) ident = None) \<and>
            db_file (sweep now w) = Some (JSON_stringify (store (sweep now w)))" if changed
  proof -
    from sweep_loop_changed [OF loop _ that] st
    have "\<exists>e\<in>set (store w). map_of (store (sweep now w)) (fst e) = None" by simp
    then have "\<exists>(ident, f)\<in>set (store w). map_of (store (sweep now w)) ident = None"
      by (auto simp: case_prod_unfold)
    moreover have "db_file (sweep now w) = Some (JSON_stringify (store (sweep now w)))"
      using that by (simp add: st) (simp add: res)
    ultimately show ?thesis by simp
  qed
  have c6: "store (sweep now w) = store w \<and> db_file (sweep now w) = db_file w" if "\<not> changed"
  proof -
    from sweep_loop_unchanged [OF loop that] have "DB' = store w" by simp
    with st that show ?thesis by (simp add: res fr)
  qed
  show ?thesis
    unfolding Let_def
    apply (intro conjI)
    subgoal using c1 by simp
    subgoal by (rule c2)
    subgoal using c3 by blast
    subgoal by (simp add: c4)
    subgoal using c4 c5 by (cases changed) simp_all
    subgoal using c4 c6 by (cases changed) simp_all
    subgoal using sweep_exact sweep_retains by blast
    done
qed

theorem sweep_invariant_witness:
  "(\<forall>k. (1700000600001 :: int) \<le> 1700000600001 + int k) \<and>
   (''a1b2c3d4e5f6'', example_record) \<in> set (store (holding example_record ''hello'')) \<and>
   expiresAt example_record < 1700000600001 \<and>
   path example_record \<notin> locked (holding example_record ''hello'') \<and>
   map_of (store (sweep (\<lambda>k. 1700000600001 + int k) (holding example_record ''hello'')))
     ''a1b2c3d4e5f6'' = None \<and>
   files (sweep (\<lambda>k. 1700000600001 + int k) (holding example_record ''hello''))
     (path example_record) = None \<and>
   (\<forall>k :: nat. (1700000000500 :: int) \<le> 1700000000500) \<and>
   distinct (map fst (store (holding example_record ''hello''))) \<and>
   (\<forall>k :: nat. \<not> 1700000000500 > expiresAt example_record) \<and>
   map_of (store (sweep (\<lambda>k. 1700000000500) (holding example_record ''hello'')))
     ''a1b2c3d4e5f6'' = Some example_record"
proof -
  have h: "\<forall>k. (1700000600001 :: int) \<le> 1700000600001 + int k" by simp
  have m: "(''a1b2c3d4e5f6'', example_record) \<in> set (store (holding example_record ''hello''))"
    by (simp add: store_holding) (simp add: example_record_def)
  have e: "expiresAt example_record < 1700000600001"
    by (simp add: example_record_def)
  have u: "path example_record \<notin> locked (holding example_record ''hello'')"
    by (simp add: holding_def initial_world_def)
  from sweep_invariant [OF h, of "holding example_record ''hello''"]
  have "\<forall>(ident, f)\<in>set (store (holding example_record ''hello'')).
      expiresAt f < 1700000600001 \<longrightarrow>
        map_of (store (sweep (\<lambda>k. 1700000600001 + int k) (holding example_record ''hello'')))
          ident = None \<and>
        (path f \<notin> locked (holding example_record ''hello'') \<longrightarrow>
           files (sweep (\<lambda>k. 1700000600001 + int k) (holding example_record ''hello''))
             (path f) = None)"
    by (simp add: Let_def)
  with m e u have removed:
    "map_of (store (sweep (\<lambda>k. 1700000600001 + int k) (holding example_record ''hello'')))
       ''a1b2c3d4e5f6'' = None \<and>
     files (sweep (\<lambda>k. 1700000600001 + int k) (holding example_record ''hello''))
       (path example_record) = None"
    by blast
  have h': "\<forall>k :: nat. (1700000000500 :: int) \<le> 1700000000500" by simp
  have d: "distinct (map fst (store (holding example_record ''hello'')))"
    by (simp add: store_holding)
  have n: "\<forall>k :: nat. \<not> 1700000000500 > expiresAt example_record"
    by (simp add: example_record_def)
  from sweep_invariant [OF h', of "holding example_record ''hello''"]
  have "distinct (map fst (store (holding example_record ''hello''))) \<longrightarrow>
      (\<forall>(ident, f)\<in>set (store (holding example_record ''hello'')).
         (\<forall>k :: nat. \<not> 1700000000500 > expiresAt f) \<longrightarrow>
           (ident, f) \<in> set (store (sweep (\<lambda>k. 1700000000500)
                                    (holding example_record ''hello''))) \<and>
           map_of (store (sweep (\<lambda>k. 1700000000500) (holding example_record ''hello'')))
             ident = Some f)"
    unfolding Let_def by (elim conjE) blast
  with d m n have kept:
    "map_of (store (sweep (\<lambda>k. 1700000000500) (holding example_record ''hello'')))
       ''a1b2c3d4e5f6'' = Some example_record"
    by blast
  from h m e u removed h' d n kept show ?thesis by blast
qed

subsection \<open>Metadata\<close>

text \<open>
  C6. The claim: the metadata handler answers with exactly the id, the original name, the
  expiry and the password flag of the record, and with 404 for every id that is not in
  the store. The handler tests \<^verbatim>\<open>DB[req.params.id]\<close> for truthiness, and for an id
  that is the name of a member of \<^verbatim>\<open>Object.prototype\<close> this is the inherited member:
  \<^verbatim>\<open>GET /meta/constructor\<close> on the empty store is answered 200 with the body
  \<^verbatim>\<open>{"passwordProtected":false}\<close>, not 404. (For a record of the store the answer is
  the four fields, lemma \<open>meta_handler_present\<close>; for every other absent id it is 404,
  lemma \<open>meta_handler_absent\<close>.)
\<close>

theorem meta_handler_constructor:
  "map_of (store initial_world) ''constructor'' = None \<and>
   meta_handler ''constructor'' initial_world =
     (\<lparr>status = 200, body = Json [(''passwordProtected'', JBool False)]\<rparr>, initial_world)"
proof -
  have l: "loadDB initial_world = ([], initial_world)"
    by (rule loadDB_Serialized) (simp add: initial_world_def)
  have "meta_handler ''constructor'' initial_world =
     (\<lparr>status = 200, body = Json [(''passwordProtected'', JBool False)]\<rparr>, initial_world)"
    by (simp add: meta_handler_def l get_prop_def object_prototype_keys_def res_json_def
        truthy_def)
  then show ?thesis by (simp add: store_initial_world)
qed

subsection \<open>The password hash\<close>

text \<open>
  C7. \<open>hashPwd\<close> is a function of its argument (equal secrets give equal digests). It
  maps \<^verbatim>\<open>null\<close> and the empty string to \<^verbatim>\<open>null\<close>, and every other secret to its
  digest, which is not \<^verbatim>\<open>null\<close>. An upload whose password field is missing or empty
  stores a record without a digest, and the metadata of that record say that it is not
  password-protected.
\<close>

theorem hashPwd_no_password:
  "(p = q \<longrightarrow> hashPwd L p = hashPwd L q) \<and>
   hashPwd L None = None \<and>
   hashPwd L (Some []) = None \<and>
   (s \<noteq> [] \<longrightarrow> hashPwd L (Some s) = Some (sha256_hex L s) \<and> hashPwd L (Some s) \<noteq> None) \<and>
   (req_file req = Some upl \<and> (req_password req = None \<or> req_password req = Some []) \<longrightarrow>
      (let w' = snd (upload_handler L rnd now1 now2 req w) in
         (\<exists>r. map_of (store w') (genId rnd) = Some r \<and> passwordHash r = None) \<and>
         fst (meta_handler (genId rnd) w') =
           \<lparr>status = 200,
            body = Json [(''id'', JStr (genId rnd)),
                         (''originalName'', JStr (file_originalname upl)),
                         (''expiresAt'', JNum (now1 + 600000)),
                         (''passwordProtected'', JBool False)]\<rparr>))"
proof -
  have up: "let w' = snd (upload_handler L rnd now1 now2 req w) in
         (\<exists>r. map_of (store w') (genId rnd) = Some r \<and> passwordHash r = None) \<and>
         fst (meta_handler (genId rnd) w') =
           \<lparr>status = 200,
            body = Json [(''id'', JStr (genId rnd)),
                         (''originalName'', JStr (file_originalname upl)),
                         (''expiresAt'', JNum (now1 + 600000)),
                         (''passwordProtected'', JBool False)]\<rparr>"
    if f: "req_file req = Some upl" and p: "req_password req = None \<or> req_password req = Some []"
  proof -
    define r where "r = \<lparr>id_rec = genId rnd, filename = file_filename upl,
        originalName = file_originalname upl, path = file_path upl,
        passwordHash = None, uploadedAt = now2, expiresAt = now1 + 600000\<rparr>"
    from p have nt: "\<not> truthy (req_password req)" by (auto simp: truthy_def)
    have present: "map_of (store (snd (upload_handler L rnd now1 now2 req w))) (genId rnd) = Some r"
      by (simp add: upload_handler_store f nt AList.update_conv' r_def)
    have "passwordHash r = None" by (simp add: r_def)
    with present show ?thesis
      by (simp add: Let_def meta_handler_present [OF present] truthy_None) (simp add: r_def)
  qed
  show ?thesis
    using up by (simp add: hashPwd_def)
qed

theorem hashPwd_no_password_witness:
  "''abc'' \<noteq> [] \<and>
   hashPwd example_lib (Some ''abc'') = Some ''sha256:abc'' \<and>
   req_file example_request =
     Some \<lparr>file_originalname = ''notes.txt'', file_filename = ''1700000000000-42.txt'',
           file_path = ''/app/uploads/1700000000000-42.txt''\<rparr> \<and>
   req_password example_request = Some [] \<and>
   fst (meta_handler ''a1b2c3d4e5f6''
          (snd (upload_handler example_lib 0xa1b2c3d4e5f6 1700000000000 1700000000001
                  example_request initial_world))) =
     \<lparr>status = 200,
      body = Json [(''id'', JStr ''a1b2c3d4e5f6''),
                   (''originalName'', JStr ''notes.txt''),
                   (''expiresAt'', JNum 1700000600000),
                   (''passwordProtected'', JBool False)]\<rparr>"
proof -
  have h1: "''abc'' \<noteq> []" by simp
  have h2: "req_file example_request =
      Some \<lparr>file_originalname = ''notes.txt'', file_filename = ''1700000000000-42.txt'',
            file_path = ''/app/uploads/1700000000000-42.txt''\<rparr>"
    by (simp add: example_request_def)
  have h3: "req_password example_request = Some []"
    by (simp add: example_request_def)
  from hashPwd_no_password [where L = example_lib and s = "''abc''" and req = example_request
      and upl = "\<lparr>file_originalname = ''notes.txt'', file_filename = ''1700000000000-42.txt'',
            file_path = ''/app/uploads/1700000000000-42.txt''\<rparr>"
      and rnd = "0xa1b2c3d4e5f6" and ?now1.0 = 1700000000000 and ?now2.0 = 1700000000001
      and w = initial_world]
  show ?thesis
    using h1 h2 h3 by (simp add: Let_def genId_example example_lib_def)
qed

subsection \<open>Health\<close>

text \<open>
  C8, as stated: \<^verbatim>\<open>GET /health\<close> reports the number of records that have not expired.
  The handler reports \<^verbatim>\<open>Object.keys(DB).length\<close> and never reads the clock: with one
  record in the store that expired at 1700000600000 and has not been removed yet, the
  answer at 1700000600001 is \<open>stored: 1\<close>, while no record is unexpired.
\<close>

theorem health_counts_expired_counterexample:
  "fst (health_handler (holding example_record ''hello'')) =
     \<lparr>status = 200, body = Json [(''ok'', JBool True), (''stored'', JNum 1)]\<rparr> \<and>
   live_count 1700000600001 (store (holding example_record ''hello'')) = 0 \<and>
   fst (health_handler (holding example_record ''hello'')) \<noteq>
     \<lparr>status = 200,
      body = Json [(''ok'', JBool True),
                   (''stored'',
                    JNum (int (live_count 1700000600001
                                 (store (holding example_record ''hello'')))))]\<rparr>"
proof -
  have l: "loadDB (holding example_record ''hello'') =
      ([(''a1b2c3d4e5f6'', example_record)], holding example_record ''hello'')"
    by (rule loadDB_Serialized) (simp add: holding_def example_record_def)
  have a: "fst (health_handler (holding example_record ''hello'')) =
     \<lparr>status = 200, body = Json [(''ok'', JBool True), (''stored'', JNum 1)]\<rparr>"
    by (simp add: health_handler_def l res_json_def)
  have b: "live_count 1700000600001 (store (holding example_record ''hello'')) = 0"
    by (simp add: store_holding live_count_def) (simp add: example_record_def)
  show ?thesis by (simp add: a b)
qed

text \<open>
  C8, amended: for every state of the store, \<^verbatim>\<open>GET /health\<close> answers
  \<open>{ok: true, stored: n}\<close> where \<open>n\<close> is the number of records in the store, expired
  or not: at any time it is the number of unexpired records plus the number of expired
  records that have not been removed yet.
\<close>

theorem health_counts_store:
  "fst (health_handler w) =
     \<lparr>status = 200,
      body = Json [(''ok'', JBool True), (''stored'', JNum (int (length (store w))))]\<rparr> \<and>
   length (store w) =
     live_count now (store w) + length (filter (\<lambda>(ident, f). now > expiresAt f) (store w))"
proof -
  have "fst (health_handler w) =
     \<lparr>status = 200,
      body = Json [(''ok'', JBool True), (''stored'', JNum (int (length (store w))))]\<rparr>"
    by (cases "loadDB w") (simp add: health_handler_def store_def res_json_def)
  moreover have "length (store w) =
     live_count now (store w) + length (filter (\<lambda>(ident, f). now > expiresAt f) (store w))"
    unfolding live_count_def by (rule length_filter_split)
  ultimately show ?thesis by simp
qed

subsection \<open>Loading a store that does not parse\<close>

text \<open>
  C9. When the text of \<^verbatim>\<open>files.json\<close> that \<open>loadDB\<close> hands to \<^verbatim>\<open>JSON.parse\<close>
  does not parse, \<open>loadDB\<close> returns the empty store and prints
  ``Failed to read DB'' with \<^verbatim>\<open>console.error\<close>; nothing else changes. Its caller gets
  a store, never the error.
\<close>

theorem loadDB_parse_failure:
  assumes "db_file w = Some c"
    and "JSON_parse (if c = Empty then JSON_stringify [] else c) = Inl e"
  shows "loadDB w = ([], console_error ''Failed to read DB'' w)"
  using assms by (simp add: loadDB_def loadDB_try_def readFileSync_def)

theorem loadDB_parse_failure_witness:
  "db_file (initial_world\<lparr>db_file := Some Malformed\<rparr>) = Some Malformed \<and>
   JSON_parse (if Malformed = Empty then JSON_stringify [] else Malformed) = Inl SyntaxError \<and>
   loadDB (initial_world\<lparr>db_file := Some Malformed\<rparr>) =
     ([], initial_world\<lparr>db_file := Some Malformed, console := [Err ''Failed to read DB'']\<rparr>)"
proof -
  have h1: "db_file (initial_world\<lparr>db_file := Some Malformed\<rparr>) = Some Malformed" by simp
  have h2: "JSON_parse (if Malformed = Empty then JSON_stringify [] else Malformed) =
      Inl SyntaxError"
    by (simp add: JSON_parse_def)
  from loadDB_parse_failure [OF h1 h2] show ?thesis
    using h1 h2 by (simp add: console_error_def initial_world_def)
qed

subsection \<open>Metadata of an expired record\<close>

text \<open>
  C10. The metadata handler does not look at the clock. For a record that is still in the
  store although its \<open>expiresAt\<close> has passed, the answer is 200 with the id, the original
  name, the expiry and the password flag of the record, and the world is left exactly as
  it was.
\<close>

theorem meta_handler_expired_present:
  assumes "map_of (store w) ident = Some f" and "now > expiresAt f"
  shows "meta_handler ident w =
           (\<lparr>status = 200,
             body = Json [(''id'', JStr (id_rec f)),
                          (''originalName'', JStr (originalName f)),
                          (''expiresAt'', JNum (expiresAt f)),
                          (''passwordProtected'', JBool (truthy (passwordHash f)))]\<rparr>,
            w)"
  using assms(1) by (rule meta_handler_present)

theorem meta_handler_expired_present_witness:
  "map_of (store (holding example_record ''hello'')) ''a1b2c3d4e5f6'' = Some example_record \<and>
   expiresAt example_record < 1700000600001 \<and>
   meta_handler ''a1b2c3d4e5f6'' (holding example_record ''hello'') =
     (\<lparr>status = 200,
       body = Json [(''id'', JStr ''a1b2c3d4e5f6''),
                    (''originalName'', JStr ''notes.txt''),
                    (''expiresAt'', JNum 1700000600000),
                    (''passwordProtected'', JBool False)]\<rparr>,
      holding example_record ''hello'')"
proof -
  have h1: "map_of (store (holding example_record ''hello'')) ''a1b2c3d4e5f6'' =
      Some example_record"
    by (simp add: store_holding) (simp add: example_record_def)
  have h2: "expiresAt example_record < 1700000600001"
    by (simp add: example_record_def)
  have v: "id_rec example_record = ''a1b2c3d4e5f6''" "originalName example_record = ''notes.txt''"
    "expiresAt example_record = 1700000600000" "\<not> truthy (passwordHash example_record)"
    by (simp_all add: example_record_def truthy_def)
  from meta_handler_expired_present [OF h1 h2] show ?thesis
    using h1 h2 by (simp add: v)
qed

end
